theory Spec2Isabelle
  imports Complex_Main
begin

section \<open>JavaScript numbers\<close>

text \<open>
  The program computes with JavaScript Numbers. They are modelled as exact real
  numbers extended with the three special values of IEEE 754 arithmetic that the
  program can produce and that it tests for (\<open>isNaN\<close>): the two infinities and
  not-a-number. A division by zero therefore yields an infinity or \<open>NaN\<close> as in
  JavaScript, and \<open>NaN\<close> propagates through every operation and makes every
  comparison false.

  What this model leaves out: rounding to 53 bits, overflow of large finite values to
  an infinity, and the sign of zero (every zero is \<open>+0\<close>). \<open>Math.PI\<close> is the real
  number \<open>pi\<close>. A theorem about these definitions is a statement about the formulas
  of the program. Where the last bits of a result decide, the program can differ from
  its formulas, and does so in these places:

  \<^item> the sine of \<open>toRad(180)\<close> is 0 here and \<open>1.2e-16\<close> in the program; the tangent of
    \<open>toRad(90)\<close> is taken as 0 here and is \<open>1.6e16\<close> in the program;

  \<^item> in the program the cosine of a very small angle is exactly 1 beside a sine that
    is not 0, which no angle has here (section \<open>The equatorial-line guard\<close>);

  \<^item> the two directions between a pair of points evaluate \<open>sinSigma\<close> by expressions
    that are equal here and can differ in the last bit in the program (section
    \<open>Exchanging the two points\<close>);

  \<^item> the difference \<open>r**2 + r**2 - 2*r*r*cos(theta)\<close> of \<open>distTunnel\<close> cancels in the
    program and not here; section \<open>The chord in binary64 arithmetic\<close> models that
    function a second time, with the result of every operation rounded.
\<close>

datatype num = Fin real | PInf | NInf | NaN

instantiation num :: "{uminus, plus, minus, times, inverse, ord}"
begin

fun uminus_num :: "num \<Rightarrow> num" where
  "uminus_num (Fin x) = Fin (- x)"
| "uminus_num PInf = NInf"
| "uminus_num NInf = PInf"
| "uminus_num NaN = NaN"

fun plus_num :: "num \<Rightarrow> num \<Rightarrow> num" where
  "plus_num (Fin x) (Fin y) = Fin (x + y)"
| "plus_num NaN _ = NaN"
| "plus_num _ NaN = NaN"
| "plus_num PInf NInf = NaN"
| "plus_num NInf PInf = NaN"
| "plus_num PInf _ = PInf"
| "plus_num NInf _ = NInf"
| "plus_num _ PInf = PInf"
| "plus_num _ NInf = NInf"

definition minus_num :: "num \<Rightarrow> num \<Rightarrow> num" where
  "minus_num (a::num) b = a + (- b)"

fun times_num :: "num \<Rightarrow> num \<Rightarrow> num" where
  "times_num (Fin x) (Fin y) = Fin (x * y)"
| "times_num NaN _ = NaN"
| "times_num _ NaN = NaN"
| "times_num PInf (Fin y) = (if y = 0 then NaN else if 0 < y then PInf else NInf)"
| "times_num NInf (Fin y) = (if y = 0 then NaN else if 0 < y then NInf else PInf)"
| "times_num (Fin x) PInf = (if x = 0 then NaN else if 0 < x then PInf else NInf)"
| "times_num (Fin x) NInf = (if x = 0 then NaN else if 0 < x then NInf else PInf)"
| "times_num PInf PInf = PInf"
| "times_num PInf NInf = NInf"
| "times_num NInf PInf = NInf"
| "times_num NInf NInf = PInf"

fun divide_num :: "num \<Rightarrow> num \<Rightarrow> num" where
  "divide_num (Fin x) (Fin y) =
     (if y \<noteq> 0 then Fin (x / y)
      else if x = 0 then NaN
      else if 0 < x then PInf else NInf)"
| "divide_num NaN _ = NaN"
| "divide_num _ NaN = NaN"
| "divide_num (Fin x) PInf = Fin 0"
| "divide_num (Fin x) NInf = Fin 0"
| "divide_num PInf (Fin y) = (if 0 \<le> y then PInf else NInf)"
| "divide_num NInf (Fin y) = (if 0 \<le> y then NInf else PInf)"
| "divide_num _ _ = NaN"

definition inverse_num :: "num \<Rightarrow> num" where
  "inverse_num (a::num) = (divide (Fin 1) a :: num)"

fun less_num :: "num \<Rightarrow> num \<Rightarrow> bool" where
  "less_num (Fin x) (Fin y) = (x < y)"
| "less_num NaN _ = False"
| "less_num _ NaN = False"
| "less_num NInf NInf = False"
| "less_num NInf _ = True"
| "less_num PInf _ = False"
| "less_num (Fin x) PInf = True"
| "less_num (Fin x) NInf = False"

fun less_eq_num :: "num \<Rightarrow> num \<Rightarrow> bool" where
  "less_eq_num (Fin x) (Fin y) = (x \<le> y)"
| "less_eq_num NaN _ = False"
| "less_eq_num _ NaN = False"
| "less_eq_num NInf _ = True"
| "less_eq_num PInf PInf = True"
| "less_eq_num PInf _ = False"
| "less_eq_num (Fin x) PInf = True"
| "less_eq_num (Fin x) NInf = False"

instance ..

end

text \<open>The operator \<open>===\<close> on two Numbers: \<open>NaN\<close> is not equal to itself.\<close>

fun strict_eq :: "num \<Rightarrow> num \<Rightarrow> bool" where
  "strict_eq NaN _ = False"
| "strict_eq _ NaN = False"
| "strict_eq a b = (a = b)"

fun isNaN :: "num \<Rightarrow> bool" where
  "isNaN NaN = True"
| "isNaN _ = False"

text \<open>The operator \<open>**\<close> with the exponent 2, the only one the program uses.\<close>

fun pow2 :: "num \<Rightarrow> num" where
  "pow2 (Fin x) = Fin (x ^ 2)"
| "pow2 NaN = NaN"
| "pow2 _ = PInf"

definition Math_PI :: num where
  "Math_PI = Fin pi"

fun Math_abs :: "num \<Rightarrow> num" where
  "Math_abs (Fin x) = Fin \<bar>x\<bar>"
| "Math_abs NaN = NaN"
| "Math_abs _ = PInf"

fun Math_sqrt :: "num \<Rightarrow> num" where
  "Math_sqrt (Fin x) = (if 0 \<le> x then Fin (sqrt x) else NaN)"
| "Math_sqrt PInf = PInf"
| "Math_sqrt _ = NaN"

fun Math_sin :: "num \<Rightarrow> num" where
  "Math_sin (Fin x) = Fin (sin x)"
| "Math_sin _ = NaN"

fun Math_cos :: "num \<Rightarrow> num" where
  "Math_cos (Fin x) = Fin (cos x)"
| "Math_cos _ = NaN"

text \<open>
  \<open>Math.tan\<close> of a finite Number is a finite Number in JavaScript (no Number is an
  odd multiple of \<open>pi/2\<close>), so the model's tangent of a finite value is finite too:
  it is HOL's total \<open>tan\<close>, whose value at the poles (0) is an artefact of the
  exact real \<open>pi\<close> and is met only at latitudes \<open>90 + 180 k\<close>.
\<close>

fun Math_tan :: "num \<Rightarrow> num" where
  "Math_tan (Fin x) = Fin (tan x)"
| "Math_tan _ = NaN"

fun Math_atan :: "num \<Rightarrow> num" where
  "Math_atan (Fin x) = Fin (arctan x)"
| "Math_atan PInf = Fin (pi / 2)"
| "Math_atan NInf = Fin (- pi / 2)"
| "Math_atan NaN = NaN"

definition atan2_real :: "real \<Rightarrow> real \<Rightarrow> real" where
  "atan2_real y x =
     (if 0 < x then arctan (y / x)
      else if x < 0 then (if 0 \<le> y then arctan (y / x) + pi else arctan (y / x) - pi)
      else if 0 < y then pi / 2
      else if y < 0 then - pi / 2
      else 0)"

fun Math_atan2 :: "num \<Rightarrow> num \<Rightarrow> num" where
  "Math_atan2 (Fin y) (Fin x) = Fin (atan2_real y x)"
| "Math_atan2 NaN _ = NaN"
| "Math_atan2 _ NaN = NaN"
| "Math_atan2 (Fin y) PInf = Fin 0"
| "Math_atan2 (Fin y) NInf = (if 0 \<le> y then Fin pi else Fin (- pi))"
| "Math_atan2 PInf (Fin x) = Fin (pi / 2)"
| "Math_atan2 NInf (Fin x) = Fin (- pi / 2)"
| "Math_atan2 PInf PInf = Fin (pi / 4)"
| "Math_atan2 PInf NInf = Fin (3 * pi / 4)"
| "Math_atan2 NInf PInf = Fin (- pi / 4)"
| "Math_atan2 NInf NInf = Fin (- 3 * pi / 4)"

text \<open>
  \<open>x.toFixed(3)\<close> returns a string: the decimal notation of \<open>x\<close> rounded to three
  digits after the point, a tie going away from zero; from \<open>10^21\<close> on, and for the
  special values, it is the ordinary notation of \<open>x\<close>. A value of the program is a
  Number or such a string. The string is kept as the Number it denotes, which is what
  the division \<open>distVincenty(...) / 1000\<close> reads from it.
\<close>

datatype jsval = Number num | NumericString num

fun toFixed3 :: "num \<Rightarrow> num" where
  "toFixed3 (Fin x) =
     (if 10 ^ 21 \<le> \<bar>x\<bar> then Fin x
      else Fin (sgn x * real_of_int \<lfloor>\<bar>x\<bar> * 1000 + 1 / 2\<rfloor> / 1000))"
| "toFixed3 a = a"

fun ToNumber :: "jsval \<Rightarrow> num" where
  "ToNumber (Number a) = a"
| "ToNumber (NumericString a) = a"

section \<open>The program\<close>

definition toRad :: "num \<Rightarrow> num" where
  "toRad Value = Value * Math_PI / Fin 180"

definition distTunnel :: "num \<Rightarrow> num" where
  "distTunnel arc_length =
     (let r = Fin (63567523142 / 10 ^ 7);
          theta = arc_length / r;
          distance_tunnel = Math_sqrt (pow2 r + pow2 r - (Fin 2 * r * r * Math_cos theta))
      in distance_tunnel)"

definition parallaxAngle :: "num \<Rightarrow> num \<Rightarrow> num \<Rightarrow> num \<Rightarrow> num" where
  "parallaxAngle ra1 dec1 ra2 dec2 =
     (let deltaRa = ra2 - ra1;
          deltaRa = (if deltaRa < Fin 0 then deltaRa * Fin (- 1) else deltaRa);
          deltaDec = dec1 - dec2;
          deltaDec = (if deltaDec < Fin 0 then deltaDec * Fin (- 1) else deltaDec);
          parallaxtheta = Math_sqrt (pow2 deltaRa + pow2 deltaDec)
      in parallaxtheta)"

definition e_to_m_distance :: "num \<Rightarrow> num \<Rightarrow> num \<Rightarrow> num \<Rightarrow> num \<times> num" where
  "e_to_m_distance att1 att2 parallaxtheta distance_tunnel =
     (let ANB = Fin 360 - (Fin 360 - att1 - att2 - parallaxtheta);
          AOB = Fin 360 - (ANB + Fin 90 + Fin 90);
          OAB = (Fin 180 - AOB) / Fin 2;
          OBA = OAB;
          NAB = Fin 90 - OAB;
          NBA = Fin 90 - OBA;
          MAB = NAB + att1;
          MBA = NBA + att2;
          MABrad = toRad MAB;
          MBArad = toRad MBA;
          parallaxtheta_rad = toRad parallaxtheta;
          a_to_m_length = distance_tunnel * (Math_sin MBArad / Math_sin parallaxtheta_rad);
          b_to_m_length = distance_tunnel * (Math_sin MABrad / Math_sin parallaxtheta_rad)
      in (a_to_m_length, b_to_m_length))"



text \<open>
  \<open>distVincenty\<close>. The body of the \<open>do ... while\<close> loop runs from the current
  \<open>lambda\<close>: it either returns 0 from the function (co-incident points) or leaves
  the variables that the loop test and the code after the loop read.
\<close>

record loop_vars =
  v_sinSigma :: num
  v_cosSigma :: num
  v_sigma :: num
  v_cosSqAlpha :: num
  v_cos2SigmaM :: num
  v_lambda :: num

datatype body_result = Returned jsval | Iterated loop_vars

definition loop_body :: "num \<Rightarrow> num \<Rightarrow> num \<Rightarrow> num \<Rightarrow> num \<Rightarrow> num \<Rightarrow> num \<Rightarrow> body_result" where
  "loop_body f L sinU1 cosU1 sinU2 cosU2 lambda =
     (let sinLambda = Math_sin lambda;
          cosLambda = Math_cos lambda;
          sinSigma = Math_sqrt ((cosU2 * sinLambda) * (cosU2 * sinLambda)
            + (cosU1 * sinU2 - sinU1 * cosU2 * cosLambda) * (cosU1 * sinU2 - sinU1 * cosU2 * cosLambda))
      in if strict_eq (Fin 0) sinSigma then Returned (Number (Fin 0))
         else
           let cosSigma = sinU1 * sinU2 + cosU1 * cosU2 * cosLambda;
               sigma = Math_atan2 sinSigma cosSigma;
               sinAlpha = cosU1 * cosU2 * sinLambda / sinSigma;
               cosSqAlpha = Fin 1 - sinAlpha * sinAlpha;
               cos2SigmaM = cosSigma - Fin 2 * sinU1 * sinU2 / cosSqAlpha;
               C = f / Fin 16 * cosSqAlpha * (Fin 4 + f * (Fin 4 - Fin 3 * cosSqAlpha));
               cos2SigmaM = (if isNaN cos2SigmaM then Fin 0 else cos2SigmaM);
               lambdaP = lambda;
               lambda = L + (Fin 1 - C) * f * sinAlpha
                 * (sigma + C * sinSigma
                     * (cos2SigmaM + C * cosSigma * (Fin (- 1) + Fin 2 * cos2SigmaM * cos2SigmaM)))
           in Iterated \<lparr>v_sinSigma = sinSigma, v_cosSigma = cosSigma, v_sigma = sigma,
                v_cosSqAlpha = cosSqAlpha, v_cos2SigmaM = cos2SigmaM, v_lambda = lambda\<rparr>)"

text \<open>
  The loop \<open>do body while (Math.abs(lambda - lambdaP) > 1e-12 && --iterLimit > 0)\<close>:
  \<open>iterLimit\<close> is decremented only when the first test holds, and the body runs
  again only when the decremented value is positive. The loop ends with the value
  returned from inside the body, or with the variables and \<open>iterLimit\<close> as the code
  after the loop finds them.
\<close>

datatype loop_result = Return jsval | Exit loop_vars int

function vincenty_loop :: "num \<Rightarrow> num \<Rightarrow> num \<Rightarrow> num \<Rightarrow> num \<Rightarrow> num \<Rightarrow> num \<Rightarrow> int \<Rightarrow> loop_result" where
  "vincenty_loop f L sinU1 cosU1 sinU2 cosU2 lambdaP iterLimit =
     (case loop_body f L sinU1 cosU1 sinU2 cosU2 lambdaP of
        Returned v \<Rightarrow> Return v
      | Iterated vars \<Rightarrow>
          if Math_abs (v_lambda vars - lambdaP) > Fin (1 / 10 ^ 12)
          then (if iterLimit - 1 > 0
                then vincenty_loop f L sinU1 cosU1 sinU2 cosU2 (v_lambda vars) (iterLimit - 1)
                else Exit vars (iterLimit - 1))
          else Exit vars iterLimit)"
  by pat_completeness auto
termination
  by (relation "measure (\<lambda>(f, L, sinU1, cosU1, sinU2, cosU2, lambdaP, iterLimit). nat iterLimit)") auto

text \<open>The code after the loop, for the case that \<open>iterLimit\<close> is not 0.\<close>

definition final_distance :: "num \<Rightarrow> num \<Rightarrow> loop_vars \<Rightarrow> jsval" where
  "final_distance a b vars =
     (let cosSqAlpha = v_cosSqAlpha vars;
          sinSigma = v_sinSigma vars;
          cosSigma = v_cosSigma vars;
          cos2SigmaM = v_cos2SigmaM vars;
          sigma = v_sigma vars;
          uSq = cosSqAlpha * (a * a - b * b) / (b * b);
          A = Fin 1 + uSq / Fin 16384
            * (Fin 4096 + uSq * (Fin (- 768) + uSq * (Fin 320 - Fin 175 * uSq)));
          B = uSq / Fin 1024 * (Fin 256 + uSq * (Fin (- 128) + uSq * (Fin 74 - Fin 47 * uSq)));
          deltaSigma = B * sinSigma
            * (cos2SigmaM + B / Fin 4
                * (cosSigma * (Fin (- 1) + Fin 2 * cos2SigmaM * cos2SigmaM)
                   - B / Fin 6 * cos2SigmaM * (Fin (- 3) + Fin 4 * sinSigma * sinSigma)
                       * (Fin (- 3) + Fin 4 * cos2SigmaM * cos2SigmaM)));
          s = b * A * (sigma - deltaSigma)
      in NumericString (toFixed3 s))"

definition distVincenty :: "num \<Rightarrow> num \<Rightarrow> num \<Rightarrow> num \<Rightarrow> jsval" where
  "distVincenty lat1 lon1 lat2 lon2 =
     (let a = Fin 6378137;
          b = Fin (63567523142 / 10 ^ 4);
          f = Fin 1 / Fin (298257223563 / 10 ^ 9);
          L = toRad (lon2 - lon1);
          x = Math_atan (Fin 1 - f);
          U1 = x * Math_tan (toRad lat1);
          U2 = x * Math_tan (toRad lat2);
          sinU1 = Math_sin U1;
          cosU1 = Math_cos U1;
          sinU2 = Math_sin U2;
          cosU2 = Math_cos U2;
          lambda = L;
          iterLimit = 100
      in case vincenty_loop f L sinU1 cosU1 sinU2 cosU2 lambda iterLimit of
           Return v \<Rightarrow> v
         | Exit vars iterLimit \<Rightarrow>
             if 0 = iterLimit then Number NaN
             else final_distance a b vars)"

definition distances_to_moon ::
  "num \<Rightarrow> num \<Rightarrow> num \<Rightarrow> num \<Rightarrow> num \<Rightarrow> num \<Rightarrow> num \<Rightarrow> num \<Rightarrow> num \<Rightarrow> num \<Rightarrow> num \<times> num" where
  "distances_to_moon lat1 long1 ra1 dec1 alt1 lat2 long2 ra2 dec2 alt2 =
     (let arcdistance = ToNumber (distVincenty lat1 long1 lat2 long2) / Fin 1000;
          distance_tunnel = distTunnel arcdistance;
          parallaxtheta = parallaxAngle ra1 dec1 ra2 dec2;
          lengths_to_moon = e_to_m_distance alt1 alt2 parallaxtheta distance_tunnel
      in lengths_to_moon)"

section \<open>The chord in binary64 arithmetic\<close>

text \<open>
  A JavaScript Number is an IEEE 754 binary64 value, and every arithmetic operation
  returns the binary64 value nearest to the exact result, a tie going to the value
  whose last bit is 0. \<open>binary64 x\<close> is that value for a real \<open>x\<close>: the unit in the
  last place is \<open>2^(e - 52)\<close> where \<open>2^e <= |x| < 2^(e + 1)\<close>, and \<open>2^-1074\<close> for the
  subnormal numbers below \<open>2^-1022\<close>; a result of magnitude \<open>2^1024\<close> or more is an
  infinity. The sign of zero is not modelled.
\<close>

definition two_to :: "int \<Rightarrow> real" where
  "two_to e = (if 0 \<le> e then 2 ^ nat e else 1 / 2 ^ nat (- e))"

definition round_ties_even :: "real \<Rightarrow> int" where
  "round_ties_even x =
     (let n = \<lfloor>x\<rfloor>
      in if x - of_int n < 1 / 2 then n
         else if 1 / 2 < x - of_int n then n + 1
         else if even n then n else n + 1)"

definition binary64_exponent :: "real \<Rightarrow> int" where
  "binary64_exponent x = max \<lfloor>log 2 \<bar>x\<bar>\<rfloor> (- 1022)"

definition binary64 :: "real \<Rightarrow> num" where
  "binary64 x =
     (if x = 0 then Fin 0
      else let ulp = two_to (binary64_exponent x - 52);
               y = of_int (round_ties_even (x / ulp)) * ulp
           in if 2 ^ 1024 \<le> \<bar>y\<bar> then (if 0 < y then PInf else NInf) else Fin y)"

fun rounded :: "num \<Rightarrow> num" where
  "rounded (Fin x) = binary64 x"
| "rounded a = a"

text \<open>
  \<open>distTunnel\<close> with the literal \<open>6356.7523142\<close> and the result of every operation
  rounded. The operations are those of the source expression
  \<open>Math.sqrt(r**2 + r**2 - (2*r*r*Math.cos(theta)))\<close> in its order of evaluation:
  \<open>2*r*r*Math.cos(theta)\<close> is \<open>((2*r)*r)*Math.cos(theta)\<close>. ECMAScript leaves the last
  bit of \<open>Math.cos\<close> and of \<open>**\<close> to the implementation; both are taken as correctly
  rounded here, as \<open>Math.sqrt\<close> is (for the exponent 2 the common implementations
  return the rounded product \<open>r * r\<close>).
\<close>

definition distTunnel_binary64 :: "num \<Rightarrow> num" where
  "distTunnel_binary64 arc_length =
     (let r = rounded (Fin (63567523142 / 10 ^ 7));
          theta = rounded (arc_length / r);
          distance_tunnel = rounded (Math_sqrt
            (rounded (rounded (rounded (pow2 r) + rounded (pow2 r))
               - rounded (rounded (rounded (Fin 2 * r) * r) * rounded (Math_cos theta)))))
      in distance_tunnel)"

section \<open>The runs of the loop body\<close>

text \<open>
  The value that \<open>distVincenty\<close> binds to \<open>U1\<close> (from \<open>lat1\<close>) and to \<open>U2\<close> (from
  \<open>lat2\<close>): the product of \<open>x = Math.atan(1 - f)\<close> and the tangent of the latitude.
\<close>

definition reduced_latitude :: "num \<Rightarrow> num" where
  "reduced_latitude lat =
     (let f = Fin 1 / Fin (298257223563 / 10 ^ 9);
          x = Math_atan (Fin 1 - f)
      in x * Math_tan (toRad lat))"

text \<open>
  \<open>lambda_seq ... k\<close> is the value of \<open>lambda\<close> after \<open>k\<close> runs of the loop body, starting
  from \<open>lambda = L\<close>; \<open>iteration lat1 lon1 lat2 lon2 k\<close> is what run number \<open>k + 1\<close> of
  the body does in \<open>distVincenty lat1 lon1 lat2 lon2\<close>, and \<open>lambda_before\<close> is the
  \<open>lambda\<close> it starts from (\<open>lambdaP\<close> in the loop test).
\<close>

fun lambda_seq :: "num \<Rightarrow> num \<Rightarrow> num \<Rightarrow> num \<Rightarrow> num \<Rightarrow> num \<Rightarrow> nat \<Rightarrow> num" where
  "lambda_seq f L sinU1 cosU1 sinU2 cosU2 0 = L"
| "lambda_seq f L sinU1 cosU1 sinU2 cosU2 (Suc k) =
     (case loop_body f L sinU1 cosU1 sinU2 cosU2 (lambda_seq f L sinU1 cosU1 sinU2 cosU2 k) of
        Iterated vars \<Rightarrow> v_lambda vars
      | Returned v \<Rightarrow> lambda_seq f L sinU1 cosU1 sinU2 cosU2 k)"

definition lambda_before :: "num \<Rightarrow> num \<Rightarrow> num \<Rightarrow> num \<Rightarrow> nat \<Rightarrow> num" where
  "lambda_before lat1 lon1 lat2 lon2 k =
     (let f = Fin 1 / Fin (298257223563 / 10 ^ 9);
          L = toRad (lon2 - lon1);
          U1 = reduced_latitude lat1;
          U2 = reduced_latitude lat2
      in lambda_seq f L (Math_sin U1) (Math_cos U1) (Math_sin U2) (Math_cos U2) k)"

definition iteration :: "num \<Rightarrow> num \<Rightarrow> num \<Rightarrow> num \<Rightarrow> nat \<Rightarrow> body_result" where
  "iteration lat1 lon1 lat2 lon2 k =
     (let f = Fin 1 / Fin (298257223563 / 10 ^ 9);
          L = toRad (lon2 - lon1);
          U1 = reduced_latitude lat1;
          U2 = reduced_latitude lat2
      in loop_body f L (Math_sin U1) (Math_cos U1) (Math_sin U2) (Math_cos U2)
           (lambda_before lat1 lon1 lat2 lon2 k))"

fun iterated :: "body_result \<Rightarrow> bool" where
  "iterated (Iterated vars) = True"
| "iterated (Returned v) = False"

text \<open>The specification's tolerance: \<open>|lambda - lambda_prev| <= 1e-12\<close> after a run.\<close>

definition tolerance_met :: "num \<Rightarrow> num \<Rightarrow> num \<Rightarrow> num \<Rightarrow> nat \<Rightarrow> bool" where
  "tolerance_met lat1 lon1 lat2 lon2 k =
     (case iteration lat1 lon1 lat2 lon2 k of
        Iterated vars \<Rightarrow>
          Math_abs (v_lambda vars - lambda_before lat1 lon1 lat2 lon2 k) \<le> Fin (1 / 10 ^ 12)
      | Returned v \<Rightarrow> False)"

section \<open>The loop body on finite values\<close>

text \<open>
  The values that one run of the loop body computes when all its inputs are finite,
  as real numbers: \<open>s1\<close>, \<open>c1\<close>, \<open>s2\<close>, \<open>c2\<close> stand for \<open>sinU1\<close>, \<open>cosU1\<close>, \<open>sinU2\<close>,
  \<open>cosU2\<close> and \<open>lam\<close> for \<open>lambda\<close>. Lemma \<open>loop_body_finite\<close> below proves that
  \<open>loop_body\<close> computes exactly these.
\<close>

definition sinSigma_val :: "real \<Rightarrow> real \<Rightarrow> real \<Rightarrow> real \<Rightarrow> real \<Rightarrow> real" where
  "sinSigma_val s1 c1 s2 c2 lam =
     sqrt ((c2 * sin lam) * (c2 * sin lam)
       + (c1 * s2 - s1 * c2 * cos lam) * (c1 * s2 - s1 * c2 * cos lam))"

definition cosSigma_val :: "real \<Rightarrow> real \<Rightarrow> real \<Rightarrow> real \<Rightarrow> real \<Rightarrow> real" where
  "cosSigma_val s1 c1 s2 c2 lam = s1 * s2 + c1 * c2 * cos lam"

definition sigma_val :: "real \<Rightarrow> real \<Rightarrow> real \<Rightarrow> real \<Rightarrow> real \<Rightarrow> real" where
  "sigma_val s1 c1 s2 c2 lam =
     atan2_real (sinSigma_val s1 c1 s2 c2 lam) (cosSigma_val s1 c1 s2 c2 lam)"

definition sinAlpha_val :: "real \<Rightarrow> real \<Rightarrow> real \<Rightarrow> real \<Rightarrow> real \<Rightarrow> real" where
  "sinAlpha_val s1 c1 s2 c2 lam = c1 * c2 * sin lam / sinSigma_val s1 c1 s2 c2 lam"

definition cosSqAlpha_val :: "real \<Rightarrow> real \<Rightarrow> real \<Rightarrow> real \<Rightarrow> real \<Rightarrow> real" where
  "cosSqAlpha_val s1 c1 s2 c2 lam =
     1 - sinAlpha_val s1 c1 s2 c2 lam * sinAlpha_val s1 c1 s2 c2 lam"

definition cos2SigmaM_val :: "real \<Rightarrow> real \<Rightarrow> real \<Rightarrow> real \<Rightarrow> real \<Rightarrow> real" where
  "cos2SigmaM_val s1 c1 s2 c2 lam =
     (if cosSqAlpha_val s1 c1 s2 c2 lam = 0 then 0
      else cosSigma_val s1 c1 s2 c2 lam - 2 * s1 * s2 / cosSqAlpha_val s1 c1 s2 c2 lam)"

definition C_val :: "real \<Rightarrow> real \<Rightarrow> real \<Rightarrow> real \<Rightarrow> real \<Rightarrow> real \<Rightarrow> real" where
  "C_val f s1 c1 s2 c2 lam =
     f / 16 * cosSqAlpha_val s1 c1 s2 c2 lam * (4 + f * (4 - 3 * cosSqAlpha_val s1 c1 s2 c2 lam))"

definition lambda_val :: "real \<Rightarrow> real \<Rightarrow> real \<Rightarrow> real \<Rightarrow> real \<Rightarrow> real \<Rightarrow> real \<Rightarrow> real" where
  "lambda_val f L s1 c1 s2 c2 lam =
     L + (1 - C_val f s1 c1 s2 c2 lam) * f * sinAlpha_val s1 c1 s2 c2 lam
       * (sigma_val s1 c1 s2 c2 lam
          + C_val f s1 c1 s2 c2 lam * sinSigma_val s1 c1 s2 c2 lam
            * (cos2SigmaM_val s1 c1 s2 c2 lam
               + C_val f s1 c1 s2 c2 lam * cosSigma_val s1 c1 s2 c2 lam
                 * (- 1 + 2 * cos2SigmaM_val s1 c1 s2 c2 lam * cos2SigmaM_val s1 c1 s2 c2 lam)))"

definition vars_val :: "real \<Rightarrow> real \<Rightarrow> real \<Rightarrow> real \<Rightarrow> real \<Rightarrow> real \<Rightarrow> real \<Rightarrow> loop_vars" where
  "vars_val f L s1 c1 s2 c2 lam =
     \<lparr>v_sinSigma = Fin (sinSigma_val s1 c1 s2 c2 lam),
      v_cosSigma = Fin (cosSigma_val s1 c1 s2 c2 lam),
      v_sigma = Fin (sigma_val s1 c1 s2 c2 lam),
      v_cosSqAlpha = Fin (cosSqAlpha_val s1 c1 s2 c2 lam),
      v_cos2SigmaM = Fin (cos2SigmaM_val s1 c1 s2 c2 lam),
      v_lambda = Fin (lambda_val f L s1 c1 s2 c2 lam)\<rparr>"

text \<open>The flattening, the reduced latitudes and the sequence of \<open>lambda\<close> as reals.\<close>

definition f_val :: real where
  "f_val = 1 / (298257223563 / 10 ^ 9)"

definition U_val :: "real \<Rightarrow> real" where
  "U_val lat = arctan (1 - f_val) * tan (lat * pi / 180)"

fun lambda_val_seq :: "real \<Rightarrow> real \<Rightarrow> real \<Rightarrow> real \<Rightarrow> real \<Rightarrow> real \<Rightarrow> nat \<Rightarrow> real" where
  "lambda_val_seq f L s1 c1 s2 c2 0 = L"
| "lambda_val_seq f L s1 c1 s2 c2 (Suc k) =
     (if sinSigma_val s1 c1 s2 c2 (lambda_val_seq f L s1 c1 s2 c2 k) = 0
      then lambda_val_seq f L s1 c1 s2 c2 k
      else lambda_val f L s1 c1 s2 c2 (lambda_val_seq f L s1 c1 s2 c2 k))"

text \<open>The same for \<open>distVincenty\<close> at finite latitudes and longitudes.\<close>

definition lambda_at :: "real \<Rightarrow> real \<Rightarrow> real \<Rightarrow> real \<Rightarrow> nat \<Rightarrow> real" where
  "lambda_at lat1 lon1 lat2 lon2 k =
     lambda_val_seq f_val ((lon2 - lon1) * pi / 180)
       (sin (U_val lat1)) (cos (U_val lat1)) (sin (U_val lat2)) (cos (U_val lat2)) k"

definition sinSigma_at :: "real \<Rightarrow> real \<Rightarrow> real \<Rightarrow> real \<Rightarrow> nat \<Rightarrow> real" where
  "sinSigma_at lat1 lon1 lat2 lon2 k =
     sinSigma_val (sin (U_val lat1)) (cos (U_val lat1)) (sin (U_val lat2)) (cos (U_val lat2))
       (lambda_at lat1 lon1 lat2 lon2 k)"

text \<open>
  The result of the loop with the sign of the last \<open>lambda\<close> changed: what the loop
  gives when the two points are exchanged.
\<close>

fun mirror :: "loop_result \<Rightarrow> loop_result" where
  "mirror (Return v) = Return v"
| "mirror (Exit vars iterLimit) = Exit (vars\<lparr>v_lambda := - v_lambda vars\<rparr>) iterLimit"

text \<open>
  The distance that the code after the loop computes from finite variables, before
  \<open>toFixed\<close>.
\<close>

definition s_val :: "real \<Rightarrow> real \<Rightarrow> real \<Rightarrow> real \<Rightarrow> real \<Rightarrow> real \<Rightarrow> real \<Rightarrow> real" where
  "s_val a b sinSigma cosSigma sigma cosSqAlpha cos2SigmaM =
     (let uSq = cosSqAlpha * (a * a - b * b) / (b * b);
          A = 1 + uSq / 16384 * (4096 + uSq * (- 768 + uSq * (320 - 175 * uSq)));
          B = uSq / 1024 * (256 + uSq * (- 128 + uSq * (74 - 47 * uSq)));
          deltaSigma = B * sinSigma
            * (cos2SigmaM + B / 4
                * (cosSigma * (- 1 + 2 * cos2SigmaM * cos2SigmaM)
                   - B / 6 * cos2SigmaM * (- 3 + 4 * sinSigma * sinSigma)
                       * (- 3 + 4 * cos2SigmaM * cos2SigmaM)))
      in b * A * (sigma - deltaSigma))"

section \<open>The specification's formulas\<close>



text \<open>
  The reduced latitude as the specification writes it:
  \<open>atan((1 - f) * tan(lat))\<close>, the latitude in degrees.
\<close>

definition reduced_latitude_spec :: "num \<Rightarrow> num" where
  "reduced_latitude_spec lat =
     (let f = Fin 1 / Fin (298257223563 / 10 ^ 9)
      in Math_atan ((Fin 1 - f) * Math_tan (toRad lat)))"

section \<open>Numbers: finite arguments\<close>

declare vincenty_loop.simps [simp del]

lemma minus_Fin [simp]: "Fin x - Fin y = Fin (x - y)"
  by (simp add: minus_num_def)

lemma toRad_Fin [simp]: "toRad (Fin x) = Fin (x * pi / 180)"
  by (simp add: toRad_def Math_PI_def)

section \<open>One run of the loop body, all inputs finite\<close>

text \<open>
  When \<open>sinU1\<close> and \<open>cosU1\<close> are the sine and cosine of one angle, \<open>cosSqAlpha\<close> can
  be 0 only on the equatorial line, where \<open>sinU1\<close> is 0; the quotient
  \<open>2 * sinU1 * sinU2 / cosSqAlpha\<close> is then \<open>0 / 0\<close>.
\<close>

lemma cosSqAlpha_zero_equatorial:
  assumes u: "s1 * s1 + c1 * c1 = 1"
    and nz: "sinSigma_val s1 c1 s2 c2 lam \<noteq> 0"
    and z: "cosSqAlpha_val s1 c1 s2 c2 lam = 0"
  shows "s1 = 0"
proof -
  define X where "X = (c2 * sin lam) * (c2 * sin lam)
       + (c1 * s2 - s1 * c2 * cos lam) * (c1 * s2 - s1 * c2 * cos lam)"
  define N where "N = c1 * c2 * sin lam"
  define Y where "Y = c1 * s2 - s1 * c2 * cos lam"
  define W where "W = c2 * sin lam"
  have XW: "X = W * W + Y * Y" by (simp add: X_def W_def Y_def)
  have X0: "0 \<le> X" unfolding XW by simp
  have sg: "sinSigma_val s1 c1 s2 c2 lam = sqrt X" by (simp add: sinSigma_val_def X_def)
  have Xpos: "0 < X" using nz X0 sg by (cases "X = 0") simp_all
  have sq: "sqrt X * sqrt X = X" using X0 by simp
  have "sinAlpha_val s1 c1 s2 c2 lam * sinAlpha_val s1 c1 s2 c2 lam = 1"
    using z by (simp add: cosSqAlpha_val_def)
  then have "(N / sqrt X) * (N / sqrt X) = 1"
    unfolding sinAlpha_val_def sg N_def .
  then have "(N * N) / (sqrt X * sqrt X) = 1" by (simp only: times_divide_times_eq)
  then have NX: "N * N = X" using Xpos unfolding sq by simp
  have N: "N = c1 * W" by (simp add: N_def W_def)
  have c: "1 - c1 * c1 = s1 * s1" using u by simp
  have "Y * Y + (W * s1) * (W * s1) = Y * Y + W * W * (1 - c1 * c1)"
    unfolding c by (simp add: algebra_simps)
  also have "\<dots> = X - N * N" unfolding XW N by (simp add: algebra_simps)
  also have "\<dots> = 0" using NX by simp
  finally have y: "Y = 0" and w: "W * s1 = 0"
    by (simp_all add: sum_squares_eq_zero_iff)
  have "X = W * W" using y XW by simp
  then have "W \<noteq> 0" using Xpos by auto
  with w show ?thesis by simp
qed

lemma loop_body_finite:
  assumes u: "s1 * s1 + c1 * c1 = 1"
  shows "loop_body (Fin f) (Fin L) (Fin s1) (Fin c1) (Fin s2) (Fin c2) (Fin lam) =
     (if sinSigma_val s1 c1 s2 c2 lam = 0 then Returned (Number (Fin 0))
      else Iterated (vars_val f L s1 c1 s2 c2 lam))"
proof -
  define sS where "sS = sinSigma_val s1 c1 s2 c2 lam"
  define cS where "cS = cosSigma_val s1 c1 s2 c2 lam"
  define sg where "sg = sigma_val s1 c1 s2 c2 lam"
  define sA where "sA = sinAlpha_val s1 c1 s2 c2 lam"
  define q where "q = cosSqAlpha_val s1 c1 s2 c2 lam"
  define cM where "cM = cos2SigmaM_val s1 c1 s2 c2 lam"
  define Cv where "Cv = C_val f s1 c1 s2 c2 lam"
  have e1: "Math_sin (Fin lam) = Fin (sin lam)" "Math_cos (Fin lam) = Fin (cos lam)"
    by simp_all
  have e2: "Math_sqrt ((Fin c2 * Fin (sin lam)) * (Fin c2 * Fin (sin lam))
       + (Fin c1 * Fin s2 - Fin s1 * Fin c2 * Fin (cos lam))
         * (Fin c1 * Fin s2 - Fin s1 * Fin c2 * Fin (cos lam))) = Fin sS"
    by (simp add: sS_def sinSigma_val_def)
  have e3: "Fin s1 * Fin s2 + Fin c1 * Fin c2 * Fin (cos lam) = Fin cS"
    by (simp add: cS_def cosSigma_val_def)
  have e4: "Math_atan2 (Fin sS) (Fin cS) = Fin sg"
    by (simp add: sg_def sigma_val_def sS_def cS_def)
  have e6: "Fin 1 - Fin sA * Fin sA = Fin q"
    by (simp add: q_def cosSqAlpha_val_def sA_def)
  have e8: "Fin f / Fin 16 * Fin q * (Fin 4 + Fin f * (Fin 4 - Fin 3 * Fin q)) = Fin Cv"
    by (simp add: Cv_def C_val_def q_def)
  have e9: "Fin L + (Fin 1 - Fin Cv) * Fin f * Fin sA
                 * (Fin sg + Fin Cv * Fin sS
                     * (Fin cM + Fin Cv * Fin cS * (Fin (- 1) + Fin 2 * Fin cM * Fin cM)))
      = Fin (lambda_val f L s1 c1 s2 c2 lam)"
    by (simp add: lambda_val_def Cv_def sA_def sg_def sS_def cM_def cS_def)
  show ?thesis
  proof (cases "sS = 0")
    case True
    have "strict_eq (Fin 0) (Fin sS)" using True by simp
    then show ?thesis using True unfolding loop_body_def Let_def e1 e2 sS_def by simp
  next
    case nz: False
    have n0: "\<not> strict_eq (Fin 0) (Fin sS)" using nz by auto
    have e5: "Fin c1 * Fin c2 * Fin (sin lam) / Fin sS = Fin sA"
      using nz by (simp add: sA_def sinAlpha_val_def sS_def)
    have e7: "(if isNaN (Fin cS - Fin 2 * Fin s1 * Fin s2 / Fin q) then Fin 0
               else Fin cS - Fin 2 * Fin s1 * Fin s2 / Fin q) = Fin cM"
    proof (cases "q = 0")
      case True
      have "s1 = 0" using cosSqAlpha_zero_equatorial[OF u] nz True unfolding sS_def q_def by blast
      then have "Fin 2 * Fin s1 * Fin s2 / Fin q = NaN" using True by simp
      moreover have "cM = 0" using True by (simp add: cM_def cos2SigmaM_val_def q_def)
      ultimately show ?thesis by (simp add: minus_num_def)
    next
      case False
      then have "cM = cS - 2 * s1 * s2 / q" by (simp add: cM_def cos2SigmaM_val_def q_def cS_def)
      then show ?thesis using False by simp
    qed
    have "loop_body (Fin f) (Fin L) (Fin s1) (Fin c1) (Fin s2) (Fin c2) (Fin lam)
      = Iterated \<lparr>v_sinSigma = Fin sS, v_cosSigma = Fin cS, v_sigma = Fin sg,
                v_cosSqAlpha = Fin q, v_cos2SigmaM = Fin cM, v_lambda = Fin (lambda_val f L s1 c1 s2 c2 lam)\<rparr>"
      unfolding loop_body_def Let_def e1 e2 e3 e4 e5 e6 e7 e8 e9 using n0 by simp
    then show ?thesis using nz
      by (simp add: vars_val_def sS_def cS_def sg_def q_def cM_def)
  qed
qed

section \<open>The equatorial line\<close>

text \<open>
  On the equator both reduced latitudes are 0, and a run of the body replaces
  \<open>lambda\<close> by \<open>L + f * lambda\<close> when \<open>lambda\<close> is between 0 and \<open>pi\<close>, and by
  \<open>L - f * (2 * pi - lambda)\<close> when it is between \<open>pi\<close> and \<open>2 * pi\<close>.
\<close>

lemma atan2_sin_cos:
  assumes "0 < t" "t < pi"
  shows "atan2_real (sin t) (cos t) = t"
proof -
  have s: "0 < sin t" using assms by (simp add: sin_gt_zero)
  consider "t < pi / 2" | "t = pi / 2" | "pi / 2 < t" by linarith
  then show ?thesis
  proof cases
    case 1
    then have c: "0 < cos t" using assms by (intro cos_gt_zero_pi) linarith+
    have "arctan (tan t) = t" using 1 assms by (intro arctan_tan) linarith+
    then show ?thesis using c by (simp add: atan2_real_def tan_def)
  next
    case 2
    have cs: "cos t = 0" "sin t = 1" unfolding 2 by simp_all
    show ?thesis unfolding atan2_real_def cs using 2 by simp
  next
    case 3
    have "cos t < cos (pi / 2)" using 3 assms by (intro cos_monotone_0_pi) linarith+
    then have c: "cos t < 0" by simp
    have "arctan (tan (t - pi)) = t - pi" using 3 assms by (intro arctan_tan) linarith+
    moreover have "tan (t - pi) = tan t" using tan_periodic_pi[of "t - pi"] by simp
    ultimately have "arctan (tan t) = t - pi" by simp
    then show ?thesis using c s by (simp add: atan2_real_def tan_def)
  qed
qed

lemma equator_east:
  assumes "0 < lam" "lam < pi"
  shows "sinSigma_val 0 1 0 1 lam \<noteq> 0" "lambda_val f L 0 1 0 1 lam = L + f * lam"
proof -
  have s: "0 < sin lam" using assms by (simp add: sin_gt_zero)
  have sS: "sinSigma_val 0 1 0 1 lam = sin lam" using s by (simp add: sinSigma_val_def)
  show "sinSigma_val 0 1 0 1 lam \<noteq> 0" using s sS by simp
  have sA: "sinAlpha_val 0 1 0 1 lam = 1" using s by (simp add: sinAlpha_val_def sS)
  have q: "cosSqAlpha_val 0 1 0 1 lam = 0" by (simp add: cosSqAlpha_val_def sA)
  have C: "C_val f 0 1 0 1 lam = 0" by (simp add: C_val_def q)
  have sg: "sigma_val 0 1 0 1 lam = lam"
    using atan2_sin_cos[OF assms] by (simp add: sigma_val_def sS cosSigma_val_def)
  show "lambda_val f L 0 1 0 1 lam = L + f * lam"
    by (simp add: lambda_val_def C sA sg)
qed

lemma equator_west:
  assumes "pi < lam" "lam < 2 * pi"
  shows "sinSigma_val 0 1 0 1 lam \<noteq> 0" "lambda_val f L 0 1 0 1 lam = L - f * (2 * pi - lam)"
proof -
  define t where "t = 2 * pi - lam"
  have t: "0 < t" "t < pi" using assms by (simp_all add: t_def)
  have st: "sin t = - sin lam" "cos t = cos lam"
    by (simp_all add: t_def sin_diff cos_diff)
  have s: "0 < sin t" using t by (simp add: sin_gt_zero)
  have sS: "sinSigma_val 0 1 0 1 lam = sin t" using s st by (simp add: sinSigma_val_def)
  show "sinSigma_val 0 1 0 1 lam \<noteq> 0" using s sS by simp
  have sA: "sinAlpha_val 0 1 0 1 lam = - 1" using s st by (simp add: sinAlpha_val_def sS)
  have q: "cosSqAlpha_val 0 1 0 1 lam = 0" by (simp add: cosSqAlpha_val_def sA)
  have C: "C_val f 0 1 0 1 lam = 0" by (simp add: C_val_def q)
  have sg: "sigma_val 0 1 0 1 lam = t"
    using atan2_sin_cos[OF t] st by (simp add: sigma_val_def sS cosSigma_val_def)
  show "lambda_val f L 0 1 0 1 lam = L - f * (2 * pi - lam)"
    by (simp add: lambda_val_def C sA sg t_def)
qed

section \<open>The loop\<close>

lemma reduced_latitude_Fin [simp]: "reduced_latitude (Fin lat) = Fin (U_val lat)"
  by (simp add: reduced_latitude_def U_val_def f_val_def Let_def)

lemma f_Fin: "Fin 1 / Fin (298257223563 / 10 ^ 9) = Fin f_val"
  by (simp add: f_val_def)

lemma distVincenty_unfold:
  "distVincenty lat1 lon1 lat2 lon2 =
     (case vincenty_loop (Fin f_val) (toRad (lon2 - lon1))
        (Math_sin (reduced_latitude lat1)) (Math_cos (reduced_latitude lat1))
        (Math_sin (reduced_latitude lat2)) (Math_cos (reduced_latitude lat2))
        (toRad (lon2 - lon1)) 100 of
        Return v \<Rightarrow> v
      | Exit vars iterLimit \<Rightarrow>
          if 0 = iterLimit then Number NaN
          else final_distance (Fin 6378137) (Fin (63567523142 / 10 ^ 4)) vars)"
  unfolding distVincenty_def reduced_latitude_def Let_def f_Fin ..

declare lambda_val_seq.simps(2) [simp del]

lemma lambda_seq_finite:
  assumes "s1 * s1 + c1 * c1 = 1"
  shows "lambda_seq (Fin f) (Fin L) (Fin s1) (Fin c1) (Fin s2) (Fin c2) k
    = Fin (lambda_val_seq f L s1 c1 s2 c2 k)"
  by (induction k) (simp_all add: loop_body_finite[OF assms] vars_val_def lambda_val_seq.simps(2))

text \<open>Control flow of the loop, for any values.\<close>

lemma loop_returned:
  "loop_body f L s1 c1 s2 c2 lam = Returned v \<Longrightarrow> vincenty_loop f L s1 c1 s2 c2 lam m = Return v"
  by (subst vincenty_loop.simps) simp

lemma loop_within:
  "loop_body f L s1 c1 s2 c2 lam = Iterated vars \<Longrightarrow>
   \<not> Math_abs (v_lambda vars - lam) > Fin (1 / 10 ^ 12) \<Longrightarrow>
   vincenty_loop f L s1 c1 s2 c2 lam m = Exit vars m"
  by (subst vincenty_loop.simps) simp

lemma loop_again:
  "loop_body f L s1 c1 s2 c2 lam = Iterated vars \<Longrightarrow>
   Math_abs (v_lambda vars - lam) > Fin (1 / 10 ^ 12) \<Longrightarrow> 1 < m \<Longrightarrow>
   vincenty_loop f L s1 c1 s2 c2 lam m = vincenty_loop f L s1 c1 s2 c2 (v_lambda vars) (m - 1)"
  by (subst vincenty_loop.simps) simp

lemma loop_exhausted:
  "loop_body f L s1 c1 s2 c2 lam = Iterated vars \<Longrightarrow>
   Math_abs (v_lambda vars - lam) > Fin (1 / 10 ^ 12) \<Longrightarrow> m \<le> 1 \<Longrightarrow>
   vincenty_loop f L s1 c1 s2 c2 lam m = Exit vars (m - 1)"
  by (subst vincenty_loop.simps) simp


lemma final_distance_finite:
  "b \<noteq> 0 \<Longrightarrow> \<exists>s. final_distance (Fin a) (Fin b) (vars_val f L s1 c1 s2 c2 lam) = NumericString (Fin s)"
proof -
  have t: "\<exists>s. toFixed3 (Fin x) = Fin s" for x by (metis toFixed3.simps(1))
  assume "b \<noteq> 0"
  then show ?thesis
    using t by (simp add: final_distance_def Let_def vars_val_def del: toFixed3.simps)
qed

lemma lambda_val_seq_Suc:
  "sinSigma_val s1 c1 s2 c2 (lambda_val_seq f L s1 c1 s2 c2 k) \<noteq> 0 \<Longrightarrow>
   lambda_val_seq f L s1 c1 s2 c2 (Suc k) = lambda_val f L s1 c1 s2 c2 (lambda_val_seq f L s1 c1 s2 c2 k)"
  by (simp add: lambda_val_seq.simps(2))

lemma loop_unroll:
  assumes u: "s1 * s1 + c1 * c1 = 1"
    and run: "\<forall>k<n. sinSigma_val s1 c1 s2 c2 (lambda_val_seq f L s1 c1 s2 c2 k) \<noteq> 0
        \<and> 1 / 10 ^ 12 < \<bar>lambda_val_seq f L s1 c1 s2 c2 (Suc k) - lambda_val_seq f L s1 c1 s2 c2 k\<bar>"
    and n: "int n < m"
  shows "vincenty_loop (Fin f) (Fin L) (Fin s1) (Fin c1) (Fin s2) (Fin c2) (Fin L) m
       = vincenty_loop (Fin f) (Fin L) (Fin s1) (Fin c1) (Fin s2) (Fin c2)
           (Fin (lambda_val_seq f L s1 c1 s2 c2 n)) (m - int n)"
  using run n
proof (induction n)
  case 0
  then show ?case by simp
next
  case (Suc n)
  let ?lam = "lambda_val_seq f L s1 c1 s2 c2 n"
  have nz: "sinSigma_val s1 c1 s2 c2 ?lam \<noteq> 0"
    and far: "1 / 10 ^ 12 < \<bar>lambda_val_seq f L s1 c1 s2 c2 (Suc n) - ?lam\<bar>"
    using Suc.prems(1) by blast+
  have run_n: "\<forall>k<n. sinSigma_val s1 c1 s2 c2 (lambda_val_seq f L s1 c1 s2 c2 k) \<noteq> 0
        \<and> 1 / 10 ^ 12 < \<bar>lambda_val_seq f L s1 c1 s2 c2 (Suc k) - lambda_val_seq f L s1 c1 s2 c2 k\<bar>"
    using Suc.prems(1) less_SucI by blast
  have n_m: "int n < m" using Suc.prems(2) by simp
  have b: "loop_body (Fin f) (Fin L) (Fin s1) (Fin c1) (Fin s2) (Fin c2) (Fin ?lam)
      = Iterated (vars_val f L s1 c1 s2 c2 ?lam)"
    using nz by (simp add: loop_body_finite[OF u])
  have v: "v_lambda (vars_val f L s1 c1 s2 c2 ?lam) = Fin (lambda_val_seq f L s1 c1 s2 c2 (Suc n))"
    using nz by (simp add: vars_val_def lambda_val_seq.simps(2))
  have t: "Math_abs (v_lambda (vars_val f L s1 c1 s2 c2 ?lam) - Fin ?lam) > Fin (1 / 10 ^ 12)"
    unfolding v using far by simp
  have "vincenty_loop (Fin f) (Fin L) (Fin s1) (Fin c1) (Fin s2) (Fin c2) (Fin L) m
      = vincenty_loop (Fin f) (Fin L) (Fin s1) (Fin c1) (Fin s2) (Fin c2) (Fin ?lam) (m - int n)"
    by (rule Suc.IH[OF run_n n_m])
  also have "\<dots> = vincenty_loop (Fin f) (Fin L) (Fin s1) (Fin c1) (Fin s2) (Fin c2)
      (v_lambda (vars_val f L s1 c1 s2 c2 ?lam)) (m - int n - 1)"
    using Suc.prems(2) by (intro loop_again[OF b t]) simp
  finally show ?case unfolding v by (simp add: algebra_simps)
qed


lemma sin_cos_unit: "sin (x::real) * sin x + cos x * cos x = 1"
  using sin_cos_squared_add[of x] by (simp add: power2_eq_square)

lemma lambda_before_Fin:
  "lambda_before (Fin lat1) (Fin lon1) (Fin lat2) (Fin lon2) k
     = Fin (lambda_val_seq f_val ((lon2 - lon1) * pi / 180)
         (sin (U_val lat1)) (cos (U_val lat1)) (sin (U_val lat2)) (cos (U_val lat2)) k)"
  unfolding lambda_before_def Let_def f_Fin
  by (simp add: lambda_seq_finite[OF sin_cos_unit])

lemma iteration_Fin:
  "iteration (Fin lat1) (Fin lon1) (Fin lat2) (Fin lon2) k
     = (let f = f_val; L = (lon2 - lon1) * pi / 180;
            s1 = sin (U_val lat1); c1 = cos (U_val lat1);
            s2 = sin (U_val lat2); c2 = cos (U_val lat2);
            lam = lambda_val_seq f L s1 c1 s2 c2 k
        in if sinSigma_val s1 c1 s2 c2 lam = 0 then Returned (Number (Fin 0))
           else Iterated (vars_val f L s1 c1 s2 c2 lam))"
  unfolding iteration_def Let_def f_Fin lambda_before_Fin
  by (simp add: loop_body_finite[OF sin_cos_unit])

lemma distVincenty_Fin:
  "distVincenty (Fin lat1) (Fin lon1) (Fin lat2) (Fin lon2) =
     (case vincenty_loop (Fin f_val) (Fin ((lon2 - lon1) * pi / 180))
        (Fin (sin (U_val lat1))) (Fin (cos (U_val lat1)))
        (Fin (sin (U_val lat2))) (Fin (cos (U_val lat2)))
        (Fin ((lon2 - lon1) * pi / 180)) 100 of
        Return v \<Rightarrow> v
      | Exit vars iterLimit \<Rightarrow>
          if 0 = iterLimit then Number NaN
          else final_distance (Fin 6378137) (Fin (63567523142 / 10 ^ 4)) vars)"
  unfolding distVincenty_unfold by simp

text \<open>
  In exact arithmetic, where a finite latitude and longitude never lead to a
  \<open>lambda\<close> that is not a number: the loop of \<open>distVincenty\<close> stops at the first run
  of the body after which \<open>|lambda - lambda_prev| <= 1e-12\<close>, or after 100 runs,
  whichever comes first. When none of the 100 runs meets the tolerance, the function
  returns the Number \<open>NaN\<close>. When run \<open>n + 1\<close> (of at most 100) is the first to meet
  it, the function returns the distance computed by the code after the loop from the
  variables of that run, a numeric string. When a run finds \<open>sinSigma\<close> equal to 0
  before any run has met the tolerance, the function returns 0.
\<close>

lemma loop_stops_exact:
  "((\<forall>k<100. iterated (iteration (Fin lat1) (Fin lon1) (Fin lat2) (Fin lon2) k)
        \<and> \<not> tolerance_met (Fin lat1) (Fin lon1) (Fin lat2) (Fin lon2) k)
     \<longrightarrow> distVincenty (Fin lat1) (Fin lon1) (Fin lat2) (Fin lon2) = Number NaN)
   \<and> (\<forall>n<100. (\<forall>k<n. iterated (iteration (Fin lat1) (Fin lon1) (Fin lat2) (Fin lon2) k)
        \<and> \<not> tolerance_met (Fin lat1) (Fin lon1) (Fin lat2) (Fin lon2) k)
        \<and> tolerance_met (Fin lat1) (Fin lon1) (Fin lat2) (Fin lon2) n
     \<longrightarrow> (\<exists>vars s. iteration (Fin lat1) (Fin lon1) (Fin lat2) (Fin lon2) n = Iterated vars
           \<and> distVincenty (Fin lat1) (Fin lon1) (Fin lat2) (Fin lon2)
               = final_distance (Fin 6378137) (Fin (63567523142 / 10 ^ 4)) vars
           \<and> final_distance (Fin 6378137) (Fin (63567523142 / 10 ^ 4)) vars
               = NumericString (Fin s)))
   \<and> (\<forall>n<100. (\<forall>k<n. iterated (iteration (Fin lat1) (Fin lon1) (Fin lat2) (Fin lon2) k)
        \<and> \<not> tolerance_met (Fin lat1) (Fin lon1) (Fin lat2) (Fin lon2) k)
        \<and> \<not> iterated (iteration (Fin lat1) (Fin lon1) (Fin lat2) (Fin lon2) n)
     \<longrightarrow> distVincenty (Fin lat1) (Fin lon1) (Fin lat2) (Fin lon2) = Number (Fin 0))"
proof -
  define f where "f = f_val"
  define L where "L = (lon2 - lon1) * pi / 180"
  define s1 where "s1 = sin (U_val lat1)"
  define c1 where "c1 = cos (U_val lat1)"
  define s2 where "s2 = sin (U_val lat2)"
  define c2 where "c2 = cos (U_val lat2)"
  define lam where "lam = lambda_val_seq f L s1 c1 s2 c2"
  define a where "a = Fin 6378137"
  define b where "b = Fin (63567523142 / 10 ^ 4)"
  let ?it = "iteration (Fin lat1) (Fin lon1) (Fin lat2) (Fin lon2)"
  let ?tol = "tolerance_met (Fin lat1) (Fin lon1) (Fin lat2) (Fin lon2)"
  let ?loop = "vincenty_loop (Fin f) (Fin L) (Fin s1) (Fin c1) (Fin s2) (Fin c2)"
  let ?dv = "distVincenty (Fin lat1) (Fin lon1) (Fin lat2) (Fin lon2)"
  have u: "s1 * s1 + c1 * c1 = 1" unfolding s1_def c1_def by (rule sin_cos_unit)
  have it: "?it k = (if sinSigma_val s1 c1 s2 c2 (lam k) = 0 then Returned (Number (Fin 0))
                     else Iterated (vars_val f L s1 c1 s2 c2 (lam k)))" for k
    unfolding iteration_Fin Let_def f_def L_def s1_def c1_def s2_def c2_def lam_def ..
  have lb: "lambda_before (Fin lat1) (Fin lon1) (Fin lat2) (Fin lon2) k = Fin (lam k)" for k
    unfolding lambda_before_Fin f_def L_def s1_def c1_def s2_def c2_def lam_def ..
  have body: "loop_body (Fin f) (Fin L) (Fin s1) (Fin c1) (Fin s2) (Fin c2) (Fin (lam k)) = ?it k" for k
    unfolding it by (rule loop_body_finite[OF u])
  have itd: "iterated (?it k) \<longleftrightarrow> sinSigma_val s1 c1 s2 c2 (lam k) \<noteq> 0" for k
    by (simp add: it)
  have nxt: "sinSigma_val s1 c1 s2 c2 (lam k) \<noteq> 0 \<Longrightarrow> lam (Suc k) = lambda_val f L s1 c1 s2 c2 (lam k)" for k
    by (simp add: lam_def lambda_val_seq.simps(2))
  have tol: "?tol k \<longleftrightarrow> sinSigma_val s1 c1 s2 c2 (lam k) \<noteq> 0 \<and> \<bar>lam (Suc k) - lam k\<bar> \<le> 1 / 10 ^ 12" for k
    unfolding tolerance_met_def lb it using nxt[of k] by (simp add: vars_val_def)
  have vl: "sinSigma_val s1 c1 s2 c2 (lam k) \<noteq> 0 \<Longrightarrow>
      v_lambda (vars_val f L s1 c1 s2 c2 (lam k)) = Fin (lam (Suc k))" for k
    using nxt[of k] by (simp add: vars_val_def)
  have dv: "?dv = (case ?loop (Fin L) 100 of Return v \<Rightarrow> v
      | Exit vars iterLimit \<Rightarrow> if 0 = iterLimit then Number NaN else final_distance a b vars)"
    unfolding distVincenty_Fin f_def L_def s1_def c1_def s2_def c2_def a_def b_def ..
  have unroll: "?loop (Fin L) 100 = ?loop (Fin (lam n)) (100 - int n)"
    if "\<forall>k<n. iterated (?it k) \<and> \<not> ?tol k" "n < 100" for n
  proof -
    have "\<forall>k<n. sinSigma_val s1 c1 s2 c2 (lam k) \<noteq> 0 \<and> 1 / 10 ^ 12 < \<bar>lam (Suc k) - lam k\<bar>"
      using that(1) unfolding itd tol by (auto simp: not_le)
    then show ?thesis unfolding lam_def using that(2) by (intro loop_unroll[OF u]) simp_all
  qed
  have A: "?dv = Number NaN" if H: "\<forall>k<100. iterated (?it k) \<and> \<not> ?tol k"
  proof -
    have "\<forall>k<99. iterated (?it k) \<and> \<not> ?tol k" using H by simp
    then have 1: "?loop (Fin L) 100 = ?loop (Fin (lam 99)) 1" using unroll[of 99] by simp
    have nz: "sinSigma_val s1 c1 s2 c2 (lam 99) \<noteq> 0" and far: "1 / 10 ^ 12 < \<bar>lam (Suc 99) - lam 99\<bar>"
      using H[rule_format, of 99] unfolding itd tol by (auto simp: not_le)
    have b: "loop_body (Fin f) (Fin L) (Fin s1) (Fin c1) (Fin s2) (Fin c2) (Fin (lam 99))
        = Iterated (vars_val f L s1 c1 s2 c2 (lam 99))"
      unfolding body it using nz by simp
    have t: "Math_abs (v_lambda (vars_val f L s1 c1 s2 c2 (lam 99)) - Fin (lam 99)) > Fin (1 / 10 ^ 12)"
      unfolding vl[OF nz] using far by simp
    have "?loop (Fin (lam 99)) 1 = Exit (vars_val f L s1 c1 s2 c2 (lam 99)) (1 - 1)"
      by (rule loop_exhausted[OF b t]) simp
    then show ?thesis unfolding dv 1 by simp
  qed
  have B: "\<exists>vars s. ?it n = Iterated vars \<and> ?dv = final_distance a b vars
        \<and> final_distance a b vars = NumericString (Fin s)"
    if n: "n < 100" and H: "\<forall>k<n. iterated (?it k) \<and> \<not> ?tol k" and T: "?tol n" for n
  proof -
    have 1: "?loop (Fin L) 100 = ?loop (Fin (lam n)) (100 - int n)" using unroll[OF H n] .
    have nz: "sinSigma_val s1 c1 s2 c2 (lam n) \<noteq> 0" and near: "\<bar>lam (Suc n) - lam n\<bar> \<le> 1 / 10 ^ 12"
      using T unfolding tol by auto
    have i: "?it n = Iterated (vars_val f L s1 c1 s2 c2 (lam n))" unfolding it using nz by simp
    have b: "loop_body (Fin f) (Fin L) (Fin s1) (Fin c1) (Fin s2) (Fin c2) (Fin (lam n))
        = Iterated (vars_val f L s1 c1 s2 c2 (lam n))"
      unfolding body i ..
    have t: "\<not> Math_abs (v_lambda (vars_val f L s1 c1 s2 c2 (lam n)) - Fin (lam n)) > Fin (1 / 10 ^ 12)"
      unfolding vl[OF nz] using near by simp
    have "?loop (Fin (lam n)) (100 - int n) = Exit (vars_val f L s1 c1 s2 c2 (lam n)) (100 - int n)"
      by (rule loop_within[OF b t])
    then have d: "?dv = final_distance a b (vars_val f L s1 c1 s2 c2 (lam n))"
      unfolding dv 1 using n by simp
    obtain s where "final_distance a b (vars_val f L s1 c1 s2 c2 (lam n)) = NumericString (Fin s)"
      unfolding a_def b_def using final_distance_finite[of "63567523142 / 10 ^ 4"] by force
    with i d show ?thesis by blast
  qed
  have C: "?dv = Number (Fin 0)"
    if n: "n < 100" and H: "\<forall>k<n. iterated (?it k) \<and> \<not> ?tol k" and R: "\<not> iterated (?it n)" for n
  proof -
    have 1: "?loop (Fin L) 100 = ?loop (Fin (lam n)) (100 - int n)" using unroll[OF H n] .
    have z: "sinSigma_val s1 c1 s2 c2 (lam n) = 0" using R unfolding itd by simp
    have b: "loop_body (Fin f) (Fin L) (Fin s1) (Fin c1) (Fin s2) (Fin c2) (Fin (lam n))
        = Returned (Number (Fin 0))"
      unfolding body it using z by simp
    show ?thesis unfolding dv 1 loop_returned[OF b] by simp
  qed
  show ?thesis using A B C unfolding a_def b_def by blast
qed

section \<open>Two runs of the loop, worked out\<close>

lemma iterated_Fin:
  "iterated (iteration (Fin lat1) (Fin lon1) (Fin lat2) (Fin lon2) k)
     \<longleftrightarrow> sinSigma_at lat1 lon1 lat2 lon2 k \<noteq> 0"
  by (simp add: iteration_Fin Let_def sinSigma_at_def lambda_at_def)

lemma tolerance_met_Fin:
  "tolerance_met (Fin lat1) (Fin lon1) (Fin lat2) (Fin lon2) k
     \<longleftrightarrow> sinSigma_at lat1 lon1 lat2 lon2 k \<noteq> 0
       \<and> \<bar>lambda_at lat1 lon1 lat2 lon2 (Suc k) - lambda_at lat1 lon1 lat2 lon2 k\<bar> \<le> 1 / 10 ^ 12"
  unfolding tolerance_met_def lambda_before_Fin iteration_Fin Let_def sinSigma_at_def lambda_at_def
  by (simp add: vars_val_def lambda_val_seq.simps(2))

lemma U_val_0 [simp]: "U_val 0 = 0"
  by (simp add: U_val_def)

lemma f_val_bounds: "1 / 300 < f_val" "f_val < 1 / 250"
  by (simp_all add: f_val_def)

text \<open>Two points on the equator, 179.7 degrees of longitude apart.\<close>

lemma near_antipodal_step:
  fixes lam :: real
  defines "L \<equiv> (1797 / 10 - 0) * pi / 180"
  shows "pi - pi / 100 < lam \<Longrightarrow> lam < pi \<Longrightarrow>
      sinSigma_val 0 1 0 1 lam \<noteq> 0 \<and> pi < lambda_val f_val L 0 1 0 1 lam
      \<and> lambda_val f_val L 0 1 0 1 lam < pi + pi / 100
      \<and> 1 / 10 ^ 12 < \<bar>lambda_val f_val L 0 1 0 1 lam - lam\<bar>"
    and "pi < lam \<Longrightarrow> lam < pi + pi / 100 \<Longrightarrow>
      sinSigma_val 0 1 0 1 lam \<noteq> 0 \<and> pi - pi / 100 < lambda_val f_val L 0 1 0 1 lam
      \<and> lambda_val f_val L 0 1 0 1 lam < pi
      \<and> 1 / 10 ^ 12 < \<bar>lambda_val f_val L 0 1 0 1 lam - lam\<bar>"
proof -
  have p: "2 \<le> pi" by (rule pi_ge_two)
  have fv: "f_val = 1000000000 / 298257223563" by (simp add: f_val_def)
  have Lv: "L = 599 * pi / 600" by (simp add: L_def)
  {
    assume a: "pi - pi / 100 < lam" "lam < pi"
    have pos: "0 < lam" using a p by linarith
    have e: "lambda_val f_val L 0 1 0 1 lam = L + f_val * lam"
      and nz: "sinSigma_val 0 1 0 1 lam \<noteq> 0"
      using equator_east[OF pos a(2)] by simp_all
    show "sinSigma_val 0 1 0 1 lam \<noteq> 0 \<and> pi < lambda_val f_val L 0 1 0 1 lam
      \<and> lambda_val f_val L 0 1 0 1 lam < pi + pi / 100
      \<and> 1 / 10 ^ 12 < \<bar>lambda_val f_val L 0 1 0 1 lam - lam\<bar>"
      unfolding e using nz a p by (simp add: L_def f_val_def) 
  }
  {
    assume a: "pi < lam" "lam < pi + pi / 100"
    have lt: "lam < 2 * pi" using a p by linarith
    have e: "lambda_val f_val L 0 1 0 1 lam = L - f_val * (2 * pi - lam)"
      and nz: "sinSigma_val 0 1 0 1 lam \<noteq> 0"
      using equator_west[OF a(1) lt] by simp_all
    have v1: "pi - pi / 100 < L - f_val * (2 * pi - lam)"
      using a p unfolding Lv fv by argo
    have v2: "L - f_val * (2 * pi - lam) < pi"
      using a p unfolding Lv fv by argo
    have "1 / 1000000000000 < lam - (L - f_val * (2 * pi - lam))"
      using a p unfolding Lv fv by argo
    then have v3: "1 / 10 ^ 12 < lam - (L - f_val * (2 * pi - lam))" by simp
    then have v4: "1 / 10 ^ 12 < \<bar>L - f_val * (2 * pi - lam) - lam\<bar>" by linarith
    show "sinSigma_val 0 1 0 1 lam \<noteq> 0 \<and> pi - pi / 100 < lambda_val f_val L 0 1 0 1 lam
      \<and> lambda_val f_val L 0 1 0 1 lam < pi
      \<and> 1 / 10 ^ 12 < \<bar>lambda_val f_val L 0 1 0 1 lam - lam\<bar>"
      unfolding e using nz v1 v2 v4 by blast
  }
qed


lemma near_antipodal_run:
  defines "lam \<equiv> lambda_val_seq f_val ((1797 / 10 - 0) * pi / 180) 0 1 0 1"
  shows "sinSigma_val 0 1 0 1 (lam k) \<noteq> 0 \<and> 1 / 10 ^ 12 < \<bar>lam (Suc k) - lam k\<bar>"
proof -
  let ?L = "(1797 / 10 - 0) * pi / 180"
  have step: "lam (Suc k) = lambda_val f_val ?L 0 1 0 1 (lam k)"
    if "sinSigma_val 0 1 0 1 (lam k) \<noteq> 0" for k
    using that unfolding lam_def by (rule lambda_val_seq_Suc)
  have inv: "(even k \<longrightarrow> pi - pi / 100 < lam k \<and> lam k < pi)
      \<and> (odd k \<longrightarrow> pi < lam k \<and> lam k < pi + pi / 100)" for k
  proof (induction k)
    case 0
    have "lam 0 = 599 * pi / 600" by (simp add: lam_def)
    then show ?case using pi_ge_two by simp
  next
    case (Suc k)
    show ?case
    proof (cases "even k")
      case True
      then have a: "pi - pi / 100 < lam k" "lam k < pi" using Suc by blast+
      note st = near_antipodal_step(1)[OF a]
      have nz: "sinSigma_val 0 1 0 1 (lam k) \<noteq> 0" using st by blast
      have "pi < lam (Suc k) \<and> lam (Suc k) < pi + pi / 100"
        unfolding step[OF nz] using st by blast
      then show ?thesis using True by simp
    next
      case False
      then have a: "pi < lam k" "lam k < pi + pi / 100" using Suc by blast+
      note st = near_antipodal_step(2)[OF a]
      have nz: "sinSigma_val 0 1 0 1 (lam k) \<noteq> 0" using st by blast
      have "pi - pi / 100 < lam (Suc k) \<and> lam (Suc k) < pi"
        unfolding step[OF nz] using st by blast
      then show ?thesis using False by simp
    qed
  qed
  show ?thesis
  proof (cases "even k")
    case True
    then have a: "pi - pi / 100 < lam k" "lam k < pi" using inv[of k] by blast+
    note st = near_antipodal_step(1)[OF a]
    have nz: "sinSigma_val 0 1 0 1 (lam k) \<noteq> 0" using st by blast
    have "1 / 10 ^ 12 < \<bar>lam (Suc k) - lam k\<bar>" unfolding step[OF nz] using st by blast
    with nz show ?thesis by blast
  next
    case False
    then have a: "pi < lam k" "lam k < pi + pi / 100" using inv[of k] by blast+
    note st = near_antipodal_step(2)[OF a]
    have nz: "sinSigma_val 0 1 0 1 (lam k) \<noteq> 0" using st by blast
    have "1 / 10 ^ 12 < \<bar>lam (Suc k) - lam k\<bar>" unfolding step[OF nz] using st by blast
    with nz show ?thesis by blast
  qed
qed

lemma near_antipodal_never_converges:
  "iterated (iteration (Fin 0) (Fin 0) (Fin 0) (Fin (1797 / 10)) k)
   \<and> \<not> tolerance_met (Fin 0) (Fin 0) (Fin 0) (Fin (1797 / 10)) k"
  using near_antipodal_run[of k]
  unfolding iterated_Fin tolerance_met_Fin sinSigma_at_def lambda_at_def
  by (simp add: not_le)

text \<open>Two points on one meridian: latitudes 0 and 45.\<close>

lemma meridian_first_run:
  "tolerance_met (Fin 0) (Fin 0) (Fin 45) (Fin 0) 0"
proof -
  define u where "u = U_val 45"
  have "u = arctan (1 - f_val)" by (simp add: u_def U_val_def tan_45)
  moreover have "0 < arctan (1 - f_val)" using f_val_bounds by simp
  moreover have "arctan (1 - f_val) < pi / 2" by (rule arctan_ubound)
  ultimately have u: "0 < u" "u < pi" using pi_gt_zero by linarith+
  have s: "0 < sin u" using u by (simp add: sin_gt_zero)
  have sS: "sinSigma_val 0 1 (sin u) (cos u) 0 = sin u" using s by (simp add: sinSigma_val_def)
  have sA: "sinAlpha_val 0 1 (sin u) (cos u) 0 = 0" by (simp add: sinAlpha_val_def)
  have l: "lambda_val f_val 0 0 1 (sin u) (cos u) 0 = 0" by (simp add: lambda_val_def sA)
  show ?thesis
    unfolding tolerance_met_Fin sinSigma_at_def lambda_at_def u_def[symmetric]
    using s by (simp add: sS l lambda_val_seq.simps(2))
qed

lemma loop_stops_exact_runs:
  "distVincenty (Fin 0) (Fin 0) (Fin 0) (Fin (1797 / 10)) = Number NaN
   \<and> (\<exists>s. distVincenty (Fin 0) (Fin 0) (Fin 45) (Fin 0) = NumericString (Fin s))"
proof
  have "\<forall>k<100. iterated (iteration (Fin 0) (Fin 0) (Fin 0) (Fin (1797 / 10)) k)
        \<and> \<not> tolerance_met (Fin 0) (Fin 0) (Fin 0) (Fin (1797 / 10)) k"
    using near_antipodal_never_converges by blast
  with loop_stops_exact[of 0 0 0 "1797 / 10"]
  show "distVincenty (Fin 0) (Fin 0) (Fin 0) (Fin (1797 / 10)) = Number NaN" by blast
next
  have "(\<forall>k<(0::nat). iterated (iteration (Fin 0) (Fin 0) (Fin 45) (Fin 0) k)
        \<and> \<not> tolerance_met (Fin 0) (Fin 0) (Fin 45) (Fin 0) k)
        \<and> tolerance_met (Fin 0) (Fin 0) (Fin 45) (Fin 0) 0"
    using meridian_first_run by simp
  moreover have "(0::nat) < 100" by simp
  ultimately obtain vars s where
    "distVincenty (Fin 0) (Fin 0) (Fin 45) (Fin 0)
       = final_distance (Fin 6378137) (Fin (63567523142 / 10 ^ 4)) vars"
    "final_distance (Fin 6378137) (Fin (63567523142 / 10 ^ 4)) vars = NumericString (Fin s)"
    using loop_stops_exact[of 0 0 45 0] by blast
  then show "\<exists>s. distVincenty (Fin 0) (Fin 0) (Fin 45) (Fin 0) = NumericString (Fin s)"
    by simp
qed

section \<open>Exchanging the two points\<close>

lemma sinSigma_val_swap:
  assumes "s1 * s1 + c1 * c1 = 1" "s2 * s2 + c2 * c2 = 1"
  shows "sinSigma_val s2 c2 s1 c1 (- lam) = sinSigma_val s1 c1 s2 c2 lam"
proof -
  have "sin lam * sin lam + cos lam * cos lam = 1" by (rule sin_cos_unit)
  with assms have "(c1 * (- sin lam)) * (c1 * (- sin lam))
        + (c2 * s1 - s2 * c1 * cos lam) * (c2 * s1 - s2 * c1 * cos lam)
      = (c2 * sin lam) * (c2 * sin lam)
        + (c1 * s2 - s1 * c2 * cos lam) * (c1 * s2 - s1 * c2 * cos lam)"
    by algebra
  then show ?thesis unfolding sinSigma_val_def by simp
qed

lemma cosSigma_val_swap: "cosSigma_val s2 c2 s1 c1 (- lam) = cosSigma_val s1 c1 s2 c2 lam"
  by (simp add: cosSigma_val_def mult.commute)

lemma swap_vals:
  assumes u: "s1 * s1 + c1 * c1 = 1" "s2 * s2 + c2 * c2 = 1"
  shows "sigma_val s2 c2 s1 c1 (- lam) = sigma_val s1 c1 s2 c2 lam"
    and "sinAlpha_val s2 c2 s1 c1 (- lam) = - sinAlpha_val s1 c1 s2 c2 lam"
    and "cosSqAlpha_val s2 c2 s1 c1 (- lam) = cosSqAlpha_val s1 c1 s2 c2 lam"
    and "cos2SigmaM_val s2 c2 s1 c1 (- lam) = cos2SigmaM_val s1 c1 s2 c2 lam"
    and "C_val f s2 c2 s1 c1 (- lam) = C_val f s1 c1 s2 c2 lam"
    and "lambda_val f (- L) s2 c2 s1 c1 (- lam) = - lambda_val f L s1 c1 s2 c2 lam"
proof -
  note sS = sinSigma_val_swap[OF u] and cS = cosSigma_val_swap
  show sg: "sigma_val s2 c2 s1 c1 (- lam) = sigma_val s1 c1 s2 c2 lam"
    by (simp add: sigma_val_def sS cS)
  show sA: "sinAlpha_val s2 c2 s1 c1 (- lam) = - sinAlpha_val s1 c1 s2 c2 lam"
    by (simp add: sinAlpha_val_def sS mult.commute)
  show q: "cosSqAlpha_val s2 c2 s1 c1 (- lam) = cosSqAlpha_val s1 c1 s2 c2 lam"
    by (simp add: cosSqAlpha_val_def sA)
  show cM: "cos2SigmaM_val s2 c2 s1 c1 (- lam) = cos2SigmaM_val s1 c1 s2 c2 lam"
    by (simp add: cos2SigmaM_val_def q cS mult.commute)
  show C: "C_val f s2 c2 s1 c1 (- lam) = C_val f s1 c1 s2 c2 lam"
    by (simp add: C_val_def q)
  show "lambda_val f (- L) s2 c2 s1 c1 (- lam) = - lambda_val f L s1 c1 s2 c2 lam"
    unfolding lambda_val_def sg sA cM C sS cS by (simp add: algebra_simps)
qed

lemma vars_val_swap:
  assumes u: "s1 * s1 + c1 * c1 = 1" "s2 * s2 + c2 * c2 = 1"
  shows "vars_val f (- L) s2 c2 s1 c1 (- lam)
     = (vars_val f L s1 c1 s2 c2 lam)\<lparr>v_lambda := - v_lambda (vars_val f L s1 c1 s2 c2 lam)\<rparr>"
  by (simp add: vars_val_def swap_vals[OF u] sinSigma_val_swap[OF u] cosSigma_val_swap)

lemma vincenty_loop_swap:
  assumes u: "s1 * s1 + c1 * c1 = 1" "s2 * s2 + c2 * c2 = 1"
  shows "vincenty_loop (Fin f) (Fin (- L)) (Fin s2) (Fin c2) (Fin s1) (Fin c1) (Fin (- lam)) m
     = mirror (vincenty_loop (Fin f) (Fin L) (Fin s1) (Fin c1) (Fin s2) (Fin c2) (Fin lam) m)"
proof (induction "nat m" arbitrary: lam m rule: less_induct)
  case less
  let ?v = "vars_val f L s1 c1 s2 c2 lam"
  show ?case
  proof (cases "sinSigma_val s1 c1 s2 c2 lam = 0")
    case True
    then show ?thesis
      by (subst (1 2) vincenty_loop.simps)
        (simp add: loop_body_finite[OF u(1)] loop_body_finite[OF u(2)] sinSigma_val_swap[OF u])
  next
    case nz: False
    have b1: "loop_body (Fin f) (Fin L) (Fin s1) (Fin c1) (Fin s2) (Fin c2) (Fin lam) = Iterated ?v"
      using nz by (simp add: loop_body_finite[OF u(1)])
    have b2: "loop_body (Fin f) (Fin (- L)) (Fin s2) (Fin c2) (Fin s1) (Fin c1) (Fin (- lam))
        = Iterated (?v\<lparr>v_lambda := - v_lambda ?v\<rparr>)"
      using nz by (simp add: loop_body_finite[OF u(2)] sinSigma_val_swap[OF u] vars_val_swap[OF u])
    have vl: "v_lambda ?v = Fin (lambda_val f L s1 c1 s2 c2 lam)" by (simp add: vars_val_def)
    have t: "Math_abs (v_lambda (?v\<lparr>v_lambda := - v_lambda ?v\<rparr>) - Fin (- lam)) > Fin (1 / 10 ^ 12)
        \<longleftrightarrow> Math_abs (v_lambda ?v - Fin lam) > Fin (1 / 10 ^ 12)"
      by (simp add: vl abs_minus_commute)
    show ?thesis
    proof (cases "Math_abs (v_lambda ?v - Fin lam) > Fin (1 / 10 ^ 12)")
      case False
      then show ?thesis using t loop_within[OF b1] loop_within[OF b2] by simp
    next
      case far: True
      show ?thesis
      proof (cases "1 < m")
        case False
        then have "m \<le> 1" by simp
        then show ?thesis using far t loop_exhausted[OF b1] loop_exhausted[OF b2] by simp
      next
        case True
        have ih: "vincenty_loop (Fin f) (Fin (- L)) (Fin s2) (Fin c2) (Fin s1) (Fin c1)
              (Fin (- lambda_val f L s1 c1 s2 c2 lam)) (m - 1)
            = mirror (vincenty_loop (Fin f) (Fin L) (Fin s1) (Fin c1) (Fin s2) (Fin c2)
              (Fin (lambda_val f L s1 c1 s2 c2 lam)) (m - 1))"
          using True by (intro less) simp
        show ?thesis
          using far t True loop_again[OF b1, of m] loop_again[OF b2, of m] ih by (simp add: vl)
      qed
    qed
  qed
qed

lemma final_distance_lambda [simp]:
  "final_distance a b (vars\<lparr>v_lambda := x\<rparr>) = final_distance a b vars"
  by (simp add: final_distance_def)

text \<open>
  In exact arithmetic \<open>distVincenty\<close> returns the same value when the two points are
  exchanged: the run of the loop is mirrored, every \<open>lambda\<close> changes its sign and
  \<open>sinSigma\<close> stays what it is by \<open>sin^2 + cos^2 = 1\<close>. The binary64 values of the
  program do not satisfy that identity to the last bit, so this is a statement about
  the formulas and not about the digits that the program prints.
\<close>

lemma distVincenty_symmetric_exact:
  "distVincenty (Fin lat1) (Fin lon1) (Fin lat2) (Fin lon2)
     = distVincenty (Fin lat2) (Fin lon2) (Fin lat1) (Fin lon1)"
proof -
  have "lon1 - lon2 = - (lon2 - lon1)" by simp
  then have L: "(lon1 - lon2) * pi / 180 = - ((lon2 - lon1) * pi / 180)"
    by (simp only: mult_minus_left minus_divide_left)
  show ?thesis
    unfolding distVincenty_Fin[of lat2 lon2 lat1 lon1] L
      vincenty_loop_swap[OF sin_cos_unit sin_cos_unit]
    unfolding distVincenty_Fin[of lat1 lon1 lat2 lon2]
    by (cases "vincenty_loop (Fin f_val) (Fin ((lon2 - lon1) * pi / 180))
        (Fin (sin (U_val lat1))) (Fin (cos (U_val lat1)))
        (Fin (sin (U_val lat2))) (Fin (cos (U_val lat2)))
        (Fin ((lon2 - lon1) * pi / 180)) 100") simp_all
qed

section \<open>The reduced latitude\<close>

lemma tan_75_ge: "3 \<le> tan (75 * pi / 180)"
proof -
  have e: "75 * pi / 180 = pi / 4 + pi / 6" by simp
  have c1: "cos (pi / 4) \<noteq> 0" by (simp add: cos_45)
  have c2: "cos (pi / 6) \<noteq> 0" by (simp add: cos_30)
  have "0 < cos (pi / 4 + pi / 6)" by (intro cos_gt_zero_pi) (use pi_gt_zero in linarith)+
  then have c3: "cos (pi / 4 + pi / 6) \<noteq> 0" by simp
  have t: "tan (pi / 4 + pi / 6) = (1 + 1 / sqrt 3) / (1 - 1 / sqrt 3)"
    using tan_add[OF c1 c2 c3] by (simp add: tan_45 tan_30)
  have s1: "1 < sqrt 3" by simp
  have s2: "sqrt 3 \<le> 2" by (rule real_le_lsqrt) simp_all
  define x where "x = 1 / sqrt 3"
  have x1: "x < 1" using s1 by (simp add: x_def)
  have x2: "1 / 2 \<le> x" unfolding x_def using s1 s2 by (intro divide_left_mono) simp_all
  have "3 * (1 - x) \<le> 1 + x" using x2 by argo
  then have "3 \<le> (1 + x) / (1 - x)" using x1 by (simp add: pos_le_divide_eq)
  then show ?thesis unfolding e t x_def .
qed

lemma arctan_flattening: "pi / 6 < arctan (1 - f_val)"
proof -
  have "1 / sqrt 3 < 1 - f_val"
  proof -
    have "1 / (1 - f_val) < sqrt 3"
      by (rule real_less_rsqrt) (simp add: f_val_def power2_eq_square)
    moreover have "0 < 1 - f_val" by (simp add: f_val_def)
    ultimately show ?thesis by (simp add: field_simps)
  qed
  then have "arctan (1 / sqrt 3) < arctan (1 - f_val)" by (simp only: arctan_less_iff)
  moreover have "arctan (1 / sqrt 3) = pi / 6"
    by (rule arctan_unique) (use pi_gt_zero in \<open>simp_all add: tan_30\<close>)
  ultimately show ?thesis by simp
qed

lemma reduced_latitude_75:
  "arctan (1 - f_val) * tan (75 * pi / 180) \<noteq> arctan ((1 - f_val) * tan (75 * pi / 180))"
proof -
  have "pi / 2 = pi / 6 * 3" by simp
  also have "\<dots> < arctan (1 - f_val) * 3"
    using arctan_flattening by simp
  also have "\<dots> \<le> arctan (1 - f_val) * tan (75 * pi / 180)"
    using tan_75_ge arctan_flattening pi_gt_zero by (intro mult_left_mono) linarith+
  finally have "pi / 2 < arctan (1 - f_val) * tan (75 * pi / 180)" .
  moreover have "arctan ((1 - f_val) * tan (75 * pi / 180)) < pi / 2" by (rule arctan_ubound)
  ultimately show ?thesis by linarith
qed
text \<open>
  Claim C1 says that the solver uses \<open>U = atan((1 - f) * tan(lat))\<close>. The code
  multiplies \<open>atan(1 - f)\<close> by \<open>tan(lat)\<close> instead (\<open>reduced_latitude\<close>, which is what
  \<open>distVincenty\<close> takes the sines and cosines of, lemma \<open>distVincenty_unfold\<close>), and at
  the latitude of 75 degrees the two values differ: the code's is above \<open>pi / 2\<close>, which
  no arc tangent is.
\<close>

theorem reduced_latitude_is_not_atan:
  "reduced_latitude (Fin 75) \<noteq> reduced_latitude_spec (Fin 75)"
  using reduced_latitude_75
  by (simp add: reduced_latitude_def reduced_latitude_spec_def Let_def f_val_def)

section \<open>The equatorial-line guard\<close>

lemma guard_run:
  "loop_body (Fin f_val) (Fin (pi / 3)) (Fin (2 / 10 ^ 11)) (Fin 1) (Fin (1 / 10 ^ 11)) (Fin 1)
     (Fin (pi / 3))
   = Iterated \<lparr>v_sinSigma = Fin (sqrt 3 / 2), v_cosSigma = Fin (2 / 10 ^ 22 + 1 / 2),
       v_sigma = Fin (arctan (sqrt 3 / 2 / (2 / 10 ^ 22 + 1 / 2))), v_cosSqAlpha = Fin 0,
       v_cos2SigmaM = NInf, v_lambda = NaN\<rparr>"
proof -
  have s: "sin (pi / 3) = sqrt 3 / 2" by (rule sin_60)
  have c: "cos (pi / 3) = 1 / 2" by (rule cos_60)
  have q: "sqrt 3 * sqrt 3 = 3" by simp
  have "sqrt (3 / 4) = sqrt 3 / sqrt 4" by (rule real_sqrt_divide)
  moreover have "sqrt 4 = sqrt (2 ^ 2)" by simp
  ultimately have r: "sqrt (3 / 4) = sqrt 3 / 2" by (simp only: real_sqrt_abs abs_numeral)
  show ?thesis
    by (simp add: loop_body_def Let_def s c r atan2_real_def minus_num_def f_val_def)
qed

text \<open>
  Claim C9 says that \<open>cos2SigmaM\<close> is forced to 0 whenever \<open>cosSqAlpha\<close> is 0. The
  guard of the code is \<open>isNaN(cos2SigmaM)\<close>: it catches the quotient \<open>0 / 0\<close>, and not a
  quotient with a divisor 0 and a dividend that is not 0, which is an infinity. In exact
  arithmetic the second case cannot arise from a latitude (lemma
  \<open>cosSqAlpha_zero_equatorial\<close>); with the values that rounding gives the sine and the
  cosine of a very small reduced latitude (a cosine equal to 1 beside a sine that is not
  0) it does. The run of the body below has \<open>cosU1 = cosU2 = 1\<close> and small sines that
  are not 0: it leaves \<open>cosSqAlpha = 0\<close>, \<open>cos2SigmaM\<close> infinite, not 0, and
  \<open>lambda = NaN\<close>; the loop then ends, \<open>iterLimit\<close> is still 100, and the code after the
  loop returns the string \<open>NaN\<close>.
\<close>

theorem guard_misses_infinite_quotient:
  "loop_body (Fin f_val) (Fin (pi / 3)) (Fin (2 / 10 ^ 11)) (Fin 1) (Fin (1 / 10 ^ 11)) (Fin 1)
     (Fin (pi / 3))
   = Iterated \<lparr>v_sinSigma = Fin (sqrt 3 / 2), v_cosSigma = Fin (2 / 10 ^ 22 + 1 / 2),
       v_sigma = Fin (arctan (sqrt 3 / 2 / (2 / 10 ^ 22 + 1 / 2))), v_cosSqAlpha = Fin 0,
       v_cos2SigmaM = NInf, v_lambda = NaN\<rparr>
   \<and> (case vincenty_loop (Fin f_val) (Fin (pi / 3)) (Fin (2 / 10 ^ 11)) (Fin 1)
            (Fin (1 / 10 ^ 11)) (Fin 1) (Fin (pi / 3)) 100 of
         Return v \<Rightarrow> v
       | Exit vars iterLimit \<Rightarrow>
           if 0 = iterLimit then Number NaN
           else final_distance (Fin 6378137) (Fin (63567523142 / 10 ^ 4)) vars)
     = NumericString NaN"
proof -
  let ?v = "\<lparr>v_sinSigma = Fin (sqrt 3 / 2), v_cosSigma = Fin (2 / 10 ^ 22 + 1 / 2),
       v_sigma = Fin (arctan (sqrt 3 / 2 / (2 / 10 ^ 22 + 1 / 2))), v_cosSqAlpha = Fin 0,
       v_cos2SigmaM = NInf, v_lambda = NaN\<rparr>"
  have b: "loop_body (Fin f_val) (Fin (pi / 3)) (Fin (2 / 10 ^ 11)) (Fin 1) (Fin (1 / 10 ^ 11))
      (Fin 1) (Fin (pi / 3)) = Iterated ?v"
    by (rule guard_run)
  have t: "\<not> Math_abs (v_lambda ?v - Fin (pi / 3)) > Fin (1 / 10 ^ 12)"
    by (simp add: minus_num_def)
  have l: "vincenty_loop (Fin f_val) (Fin (pi / 3)) (Fin (2 / 10 ^ 11)) (Fin 1)
            (Fin (1 / 10 ^ 11)) (Fin 1) (Fin (pi / 3)) 100 = Exit ?v 100"
    by (rule loop_within[OF b t])
  have f: "final_distance (Fin 6378137) (Fin (63567523142 / 10 ^ 4)) ?v = NumericString NaN"
    by (simp add: final_distance_def Let_def minus_num_def)
  show ?thesis unfolding l using b f by simp
qed

section \<open>A run that leaves no number in lambda\<close>

text \<open>
  Claim C3 says that the iteration stops when \<open>|lambda - lambda_prev| <= 1e-12\<close> or
  after 100 iterations, whichever comes first. The test of the loop is
  \<open>Math.abs(lambda - lambdaP) > 1e-12 && --iterLimit > 0\<close>, and a comparison with
  \<open>NaN\<close> is false: when a run of the body leaves \<open>lambda = NaN\<close>, the loop ends at
  that run, whatever \<open>iterLimit\<close> is and without decrementing it, although the
  tolerance \<open>|lambda - lambda_prev| <= 1e-12\<close> is not met. The run of the section before
  is such a run.
\<close>

theorem loop_stops_on_NaN:
  assumes "loop_body f L sinU1 cosU1 sinU2 cosU2 lambdaP = Iterated vars"
    and "isNaN (v_lambda vars)"
  shows "vincenty_loop f L sinU1 cosU1 sinU2 cosU2 lambdaP iterLimit = Exit vars iterLimit
     \<and> \<not> Math_abs (v_lambda vars - lambdaP) \<le> Fin (1 / 10 ^ 12)"
proof -
  have n: "v_lambda vars = NaN" using assms(2) by (cases "v_lambda vars") simp_all
  have d: "Math_abs (v_lambda vars - lambdaP) = NaN" unfolding n by (simp add: minus_num_def)
  have t: "\<not> Math_abs (v_lambda vars - lambdaP) > Fin (1 / 10 ^ 12)" unfolding d by simp
  have "vincenty_loop f L sinU1 cosU1 sinU2 cosU2 lambdaP iterLimit = Exit vars iterLimit"
    by (rule loop_within[OF assms(1) t])
  moreover have "\<not> Math_abs (v_lambda vars - lambdaP) \<le> Fin (1 / 10 ^ 12)" unfolding d by simp
  ultimately show ?thesis by (rule conjI)
qed

theorem loop_stops_on_NaN_witness:
  "loop_body (Fin f_val) (Fin (pi / 3)) (Fin (2 / 10 ^ 11)) (Fin 1) (Fin (1 / 10 ^ 11)) (Fin 1)
     (Fin (pi / 3))
   = Iterated \<lparr>v_sinSigma = Fin (sqrt 3 / 2), v_cosSigma = Fin (2 / 10 ^ 22 + 1 / 2),
       v_sigma = Fin (arctan (sqrt 3 / 2 / (2 / 10 ^ 22 + 1 / 2))), v_cosSqAlpha = Fin 0,
       v_cos2SigmaM = NInf, v_lambda = NaN\<rparr>
   \<and> isNaN (v_lambda \<lparr>v_sinSigma = Fin (sqrt 3 / 2), v_cosSigma = Fin (2 / 10 ^ 22 + 1 / 2),
       v_sigma = Fin (arctan (sqrt 3 / 2 / (2 / 10 ^ 22 + 1 / 2))), v_cosSqAlpha = Fin 0,
       v_cos2SigmaM = NInf, v_lambda = NaN\<rparr>)
   \<and> vincenty_loop (Fin f_val) (Fin (pi / 3)) (Fin (2 / 10 ^ 11)) (Fin 1) (Fin (1 / 10 ^ 11))
       (Fin 1) (Fin (pi / 3)) 100
     = Exit \<lparr>v_sinSigma = Fin (sqrt 3 / 2), v_cosSigma = Fin (2 / 10 ^ 22 + 1 / 2),
       v_sigma = Fin (arctan (sqrt 3 / 2 / (2 / 10 ^ 22 + 1 / 2))), v_cosSqAlpha = Fin 0,
       v_cos2SigmaM = NInf, v_lambda = NaN\<rparr> 100"
proof -
  let ?v = "\<lparr>v_sinSigma = Fin (sqrt 3 / 2), v_cosSigma = Fin (2 / 10 ^ 22 + 1 / 2),
       v_sigma = Fin (arctan (sqrt 3 / 2 / (2 / 10 ^ 22 + 1 / 2))), v_cosSqAlpha = Fin 0,
       v_cos2SigmaM = NInf, v_lambda = NaN\<rparr>"
  have b: "loop_body (Fin f_val) (Fin (pi / 3)) (Fin (2 / 10 ^ 11)) (Fin 1) (Fin (1 / 10 ^ 11))
      (Fin 1) (Fin (pi / 3)) = Iterated ?v"
    by (rule guard_run)
  have n: "isNaN (v_lambda ?v)" by simp
  from loop_stops_on_NaN [OF b n, of 100]
  have l: "vincenty_loop (Fin f_val) (Fin (pi / 3)) (Fin (2 / 10 ^ 11)) (Fin 1) (Fin (1 / 10 ^ 11))
       (Fin 1) (Fin (pi / 3)) 100 = Exit ?v 100"
    by (rule conjunct1)
  from b n l show ?thesis by (intro conjI)
qed

section \<open>Bounds for Vincenty's test vector\<close>

text \<open>
  The points (50.06632, -5.71475) and (58.64402, -3.07009). With the reduced latitudes
  as the code computes them, the angular distance \<open>sigma\<close> is at least their
  difference, which is at least 0.196, whatever \<open>lambda\<close> is.
\<close>

lemma pi_ge_three: "3 \<le> pi"
proof -
  have "sin (pi / 6) \<le> pi / 6" by (rule sin_x_le_x) simp
  then show ?thesis by (simp add: sin_30)
qed

lemma cos_ge_parabola: "1 - x\<^sup>2 / 2 \<le> cos (x::real)"
proof -
  have "\<bar>sin (x / 2)\<bar> \<le> \<bar>x / 2\<bar>" by (rule abs_sin_x_le_abs_x)
  then have "(sin (x / 2))\<^sup>2 \<le> (x / 2)\<^sup>2" by (simp only: abs_le_square_iff)
  moreover have "cos x = 1 - 2 * (sin (x / 2))\<^sup>2" using cos_double_sin[of "x / 2"] by simp
  ultimately show ?thesis by (simp add: power2_eq_square)
qed

lemma sin_ge_cubic:
  fixes x :: real
  assumes "0 \<le> x"
  shows "x - x ^ 3 / 6 \<le> sin x"
proof -
  have "\<bar>sin x - (\<Sum>m<3. sin_coeff m * x ^ m)\<bar> \<le> inverse (fact 3) * \<bar>x\<bar> ^ 3"
    by (rule Maclaurin_sin_bound)
  moreover have "(\<Sum>m<3. sin_coeff m * x ^ m) = x"
    by (simp add: sin_coeff_def eval_nat_numeral)
  moreover have "inverse (fact 3) * \<bar>x\<bar> ^ 3 = x ^ 3 / 6"
    using assms by (simp add: eval_nat_numeral)
  ultimately show ?thesis by linarith
qed

lemma arctan_flattening_lower: "7 / 10 \<le> arctan (1 - f_val)"
proof -
  define c :: real where "c = 7 / 10"
  have c: "0 < c" "c < pi / 2" using pi_ge_three by (simp_all add: c_def)
  have cc: "151 / 200 \<le> cos c" using cos_ge_parabola[of c] by (simp add: c_def power2_eq_square)
  have sc: "sin c \<le> 7 / 10" using sin_x_le_x[of c] by (simp add: c_def)
  have "tan c = sin c / cos c" by (simp add: tan_def)
  also have "\<dots> \<le> (7 / 10) / (151 / 200)"
    using cc sc by (intro frac_le) simp_all
  also have "\<dots> \<le> 1 - f_val" by (simp add: f_val_def)
  finally have "arctan (tan c) \<le> arctan (1 - f_val)" by (simp only: arctan_le_iff)
  moreover have "arctan (tan c) = c" using c by (intro arctan_tan) linarith+
  ultimately show ?thesis by (simp add: c_def)
qed

lemma arctan_flattening_upper: "arctan (1 - f_val) < pi / 4"
proof -
  have "arctan (1 - f_val) < arctan 1" unfolding arctan_less_iff by (simp add: f_val_def)
  then show ?thesis by (simp add: arctan_one)
qed


lemma tan_difference:
  fixes x y :: real
  assumes "cos x \<noteq> 0" "cos y \<noteq> 0"
  shows "tan y - tan x = sin (y - x) / (cos x * cos y)"
  using assms by (simp add: tan_def sin_diff field_simps)

lemma tan_gap:
  "7 / 25 \<le> tan (5864402 / 100000 * pi / 180) - tan (5006632 / 100000 * pi / 180)"
proof -
  define x where "x = 5006632 / 100000 * pi / 180"
  define y where "y = 5864402 / 100000 * pi / 180"
  define d where "d = y - x"
  have p: "3 \<le> pi" "pi < 4" using pi_ge_three pi_less_4 by simp_all
  have x: "pi / 4 \<le> x" "x < pi / 2" using p by (simp_all add: x_def)
  have y: "pi / 4 \<le> y" "y < pi / 2" using p by (simp_all add: y_def)
  have d: "d = 857770 / 100000 * pi / 180" by (simp add: d_def x_def y_def)
  have dl: "1429 / 10000 \<le> d" using p unfolding d by simp
  have du: "d \<le> 191 / 1000" using p unfolding d by simp
  have cx: "0 < cos x" using x p by (intro cos_gt_zero_pi) linarith+
  have cy: "0 < cos y" using y p by (intro cos_gt_zero_pi) linarith+
  have cx2: "cos x \<le> sqrt 2 / 2"
    using cos_monotone_0_pi_le[of "pi / 4" x] x p by (simp add: cos_45)
  have cy2: "cos y \<le> sqrt 2 / 2"
    using cos_monotone_0_pi_le[of "pi / 4" y] y p by (simp add: cos_45)
  have "cos x * cos y \<le> (sqrt 2 / 2) * (sqrt 2 / 2)"
    using cx cy cx2 cy2 by (intro mult_mono) simp_all
  then have cc: "cos x * cos y \<le> 1 / 2" by simp
  have "d ^ 3 \<le> (191 / 1000) ^ 3" using dl du by (intro power_mono) simp_all
  then have "1429 / 10000 - (191 / 1000) ^ 3 / 6 \<le> d - d ^ 3 / 6" using dl by linarith
  moreover have "d - d ^ 3 / 6 \<le> sin d" using dl by (intro sin_ge_cubic) simp
  moreover have "(14 / 100 :: real) \<le> 1429 / 10000 - (191 / 1000) ^ 3 / 6"
    by (simp add: power3_eq_cube)
  ultimately have sd: "14 / 100 \<le> sin d" by linarith
  have "tan y - tan x = sin d / (cos x * cos y)"
    unfolding d_def using cx cy by (intro tan_difference) simp_all
  moreover have "(14 / 100) / (1 / 2) \<le> sin d / (cos x * cos y)"
    using sd cc cx cy by (intro frac_le) simp_all
  ultimately show ?thesis unfolding x_def y_def by simp
qed


lemma test_vector_latitudes:
  defines "U1 \<equiv> U_val (5006632 / 100000)" and "U2 \<equiv> U_val (5864402 / 100000)"
  shows "pi / 6 \<le> U1" "U1 \<le> U2" "U2 < pi / 2" "49 / 250 \<le> U2 - U1"
proof -
  define xf where "xf = arctan (1 - f_val)"
  define t1 where "t1 = tan (5006632 / 100000 * pi / 180)"
  define t2 where "t2 = tan (5864402 / 100000 * pi / 180)"
  have p: "3 \<le> pi" "pi < 4" using pi_ge_three pi_less_4 by simp_all
  have xf: "7 / 10 \<le> xf" "xf < pi / 4"
    unfolding xf_def by (rule arctan_flattening_lower, rule arctan_flattening_upper)
  have U: "U1 = xf * t1" "U2 = xf * t2" by (simp_all add: U1_def U2_def U_val_def xf_def t1_def t2_def)
  have gap: "7 / 25 \<le> t2 - t1" unfolding t1_def t2_def by (rule tan_gap)
  have "tan (pi / 4) \<le> t1" unfolding t1_def using p by (intro tan_mono_le) simp_all
  then have t1: "1 \<le> t1" by (simp add: tan_45)
  have "t2 \<le> tan (pi / 3)" unfolding t2_def using p by (intro tan_mono_le) simp_all
  then have "t2 \<le> sqrt 3" by (simp add: tan_60)
  moreover have "sqrt 3 < 2" by (rule real_less_lsqrt) simp_all
  ultimately have t2: "t2 < 2" by linarith
  have "xf * 1 \<le> xf * t1" using xf t1 by (intro mult_left_mono) simp_all
  then show "pi / 6 \<le> U1" unfolding U using xf p by linarith
  have d: "U2 - U1 = xf * (t2 - t1)" unfolding U by (simp add: algebra_simps)
  have "(7 / 10) * (7 / 25) \<le> xf * (t2 - t1)" using xf gap by (intro mult_mono) simp_all
  then show g: "49 / 250 \<le> U2 - U1" unfolding d by simp
  then show "U1 \<le> U2" by linarith
  have "xf * t2 < (pi / 4) * 2" using xf t2 t1 gap by (intro mult_strict_mono) simp_all
  then show "U2 < pi / 2" unfolding U by simp
qed

lemma sigma_identity:
  assumes "s1 * s1 + c1 * c1 = 1" "s2 * s2 + c2 * c2 = 1"
  shows "(sinSigma_val s1 c1 s2 c2 lam)\<^sup>2 + (cosSigma_val s1 c1 s2 c2 lam)\<^sup>2 = 1"
proof -
  have sc: "sin lam * sin lam + cos lam * cos lam = 1" by (rule sin_cos_unit)
  have nn: "0 \<le> (c2 * sin lam) * (c2 * sin lam)
       + (c1 * s2 - s1 * c2 * cos lam) * (c1 * s2 - s1 * c2 * cos lam)" by simp
  have "(c2 * sin lam) * (c2 * sin lam)
       + (c1 * s2 - s1 * c2 * cos lam) * (c1 * s2 - s1 * c2 * cos lam)
       + (s1 * s2 + c1 * c2 * cos lam) * (s1 * s2 + c1 * c2 * cos lam) = 1"
    using assms sc by algebra
  then show ?thesis
    unfolding sinSigma_val_def cosSigma_val_def real_sqrt_pow2[OF nn] power2_eq_square[of "s1 * s2 + c1 * c2 * cos lam"] .
qed

lemma sigma_lower:
  assumes U: "0 \<le> U1" "U1 \<le> U2" "U2 < pi / 2"
    and nz: "sinSigma_val (sin U1) (cos U1) (sin U2) (cos U2) lam \<noteq> 0"
  shows "U2 - U1 \<le> sigma_val (sin U1) (cos U1) (sin U2) (cos U2) lam"
proof -
  define y where "y = sinSigma_val (sin U1) (cos U1) (sin U2) (cos U2) lam"
  define x where "x = cosSigma_val (sin U1) (cos U1) (sin U2) (cos U2) lam"
  define d where "d = U2 - U1"
  have d: "0 \<le> d" "d < pi / 2" using U by (simp_all add: d_def)
  have y0: "0 \<le> y" by (simp add: y_def sinSigma_val_def)
  then have y: "0 < y" using nz by (simp add: y_def)
  have id: "y\<^sup>2 + x\<^sup>2 = 1"
    unfolding y_def x_def by (rule sigma_identity[OF sin_cos_unit sin_cos_unit])
  have c1: "0 < cos U1" using U by (intro cos_gt_zero_pi) linarith+
  have c2: "0 < cos U2" using U by (intro cos_gt_zero_pi) linarith+
  have "cos U1 * cos U2 * cos lam \<le> cos U1 * cos U2 * 1"
    using c1 c2 by (intro mult_left_mono) simp_all
  then have xk: "x \<le> cos d" by (simp add: x_def cosSigma_val_def d_def cos_diff mult.commute)
  have sg: "sigma_val (sin U1) (cos U1) (sin U2) (cos U2) lam = atan2_real y x"
    by (simp add: sigma_val_def y_def x_def)
  show ?thesis
  proof (cases "0 < x")
    case False
    have "- (pi / 2) < arctan (y / x)" by (rule arctan_lbound)
    then have "pi / 2 \<le> atan2_real y x" using False y by (simp add: atan2_real_def)
    then show ?thesis unfolding sg d_def[symmetric] using d by linarith
  next
    case True
    have cd: "0 < cos d" using d by (intro cos_gt_zero_pi) linarith+
    have sd: "0 \<le> sin d" using d by (intro sin_ge_zero) linarith+
    have "x\<^sup>2 \<le> (cos d)\<^sup>2" using True xk by (intro power_mono) simp_all
    then have "(sin d)\<^sup>2 \<le> y\<^sup>2" using id sin_cos_squared_add[of d] by linarith
    then have ys: "sin d \<le> y" using y0 sd by (simp add: power2_le_iff_abs_le)
    have "tan d = sin d / cos d" by (simp add: tan_def)
    also have "\<dots> \<le> y / x" using ys xk True sd by (intro frac_le) simp_all
    finally have "arctan (tan d) \<le> arctan (y / x)" by (simp only: arctan_le_iff)
    moreover have "arctan (tan d) = d" using d by (intro arctan_tan) linarith+
    ultimately show ?thesis unfolding sg d_def[symmetric] using True by (simp add: atan2_real_def)
  qed
qed


lemma abs_mult_le:
  fixes a b :: real
  shows "\<bar>a\<bar> \<le> A \<Longrightarrow> \<bar>b\<bar> \<le> B \<Longrightarrow> \<bar>a * b\<bar> \<le> A * B"
  unfolding abs_mult by (intro mult_mono) simp_all

lemma deltaSigma_small:
  fixes B y x cM :: real
  assumes B: "0 \<le> B" "B \<le> 2 / 1000" and y: "\<bar>y\<bar> \<le> 1" and x: "\<bar>x\<bar> \<le> 1" and cM: "\<bar>cM\<bar> \<le> 9"
  shows "\<bar>B * y * (cM + B / 4 * (x * (- 1 + 2 * cM * cM)
           - B / 6 * cM * (- 3 + 4 * y * y) * (- 3 + 4 * cM * cM)))\<bar> \<le> 2 / 100"
proof -
  have cc: "\<bar>cM * cM\<bar> \<le> 9 * 9" by (rule abs_mult_le[OF cM cM])
  have yy: "\<bar>y * y\<bar> \<le> 1 * 1" by (rule abs_mult_le[OF y y])
  have cc0: "0 \<le> cM * cM" and yy0: "0 \<le> y * y" by simp_all
  have r: "2 * cM * cM = 2 * (cM * cM)" "4 * cM * cM = 4 * (cM * cM)" "4 * y * y = 4 * (y * y)"
    by simp_all
  have e1: "\<bar>- 1 + 2 * cM * cM\<bar> \<le> 161" unfolding r using cc cc0 by linarith
  have e2: "\<bar>- 3 + 4 * y * y\<bar> \<le> 3" unfolding r using yy yy0 by linarith
  have e3: "\<bar>- 3 + 4 * cM * cM\<bar> \<le> 321" unfolding r using cc cc0 by linarith
  have t1: "\<bar>x * (- 1 + 2 * cM * cM)\<bar> \<le> 1 * 161" by (rule abs_mult_le[OF x e1])
  have b6: "\<bar>B / 6\<bar> \<le> 1 / 3000" using B by simp
  have b4: "\<bar>B / 4\<bar> \<le> 1 / 2000" using B by simp
  have bb: "\<bar>B\<bar> \<le> 2 / 1000" using B by simp
  have u1: "\<bar>B / 6 * cM\<bar> \<le> 1 / 3000 * 9" by (rule abs_mult_le[OF b6 cM])
  have u2: "\<bar>B / 6 * cM * (- 3 + 4 * y * y)\<bar> \<le> 1 / 3000 * 9 * 3"
    by (rule abs_mult_le[OF u1 e2])
  have t2: "\<bar>B / 6 * cM * (- 3 + 4 * y * y) * (- 3 + 4 * cM * cM)\<bar> \<le> 1 / 3000 * 9 * 3 * 321"
    by (rule abs_mult_le[OF u2 e3])
  have t3: "\<bar>x * (- 1 + 2 * cM * cM) - B / 6 * cM * (- 3 + 4 * y * y) * (- 3 + 4 * cM * cM)\<bar> \<le> 164"
    using t1 t2 by linarith
  have t4: "\<bar>B / 4 * (x * (- 1 + 2 * cM * cM)
      - B / 6 * cM * (- 3 + 4 * y * y) * (- 3 + 4 * cM * cM))\<bar> \<le> 1 / 2000 * 164"
    by (rule abs_mult_le[OF b4 t3])
  have t5: "\<bar>cM + B / 4 * (x * (- 1 + 2 * cM * cM)
      - B / 6 * cM * (- 3 + 4 * y * y) * (- 3 + 4 * cM * cM))\<bar> \<le> 10"
    using cM t4 by linarith
  have t6: "\<bar>B * y\<bar> \<le> 2 / 1000 * 1" by (rule abs_mult_le[OF bb y])
  have "\<bar>B * y * (cM + B / 4 * (x * (- 1 + 2 * cM * cM)
      - B / 6 * cM * (- 3 + 4 * y * y) * (- 3 + 4 * cM * cM)))\<bar> \<le> 2 / 1000 * 1 * 10"
    by (rule abs_mult_le[OF t6 t5])
  then show ?thesis by simp
qed

lemma series_coefficients:
  fixes u :: real
  assumes "0 \<le> u" "u \<le> 68 / 10000"
  shows "1 \<le> 1 + u / 16384 * (4096 + u * (- 768 + u * (320 - 175 * u)))"
    and "0 \<le> u / 1024 * (256 + u * (- 128 + u * (74 - 47 * u)))"
    and "u / 1024 * (256 + u * (- 128 + u * (74 - 47 * u))) \<le> 2 / 1000"
proof -
  have u1: "u \<le> 1" using assms by simp
  have a1: "0 \<le> u * (320 - 175 * u)" using assms by (intro mult_nonneg_nonneg) simp_all
  have "u * (320 - 175 * u) \<le> 1 * 320" using assms u1 by (intro mult_mono) simp_all
  then have a2: "0 \<le> 768 - u * (320 - 175 * u)" "768 - u * (320 - 175 * u) \<le> 768"
    using a1 by linarith+
  have a3: "0 \<le> u * (768 - u * (320 - 175 * u))"
    using assms a2 by (intro mult_nonneg_nonneg) simp_all
  have a4: "u * (768 - u * (320 - 175 * u)) \<le> 1 * 768"
    using assms u1 a2 by (intro mult_mono) simp_all
  have ea: "4096 + u * (- 768 + u * (320 - 175 * u)) = 4096 - u * (768 - u * (320 - 175 * u))"
    by (simp add: algebra_simps)
  have p1: "0 \<le> 4096 + u * (- 768 + u * (320 - 175 * u))" unfolding ea using a4 by linarith
  have "0 \<le> u / 16384 * (4096 + u * (- 768 + u * (320 - 175 * u)))"
    using assms p1 by (intro mult_nonneg_nonneg) simp_all
  then show "1 \<le> 1 + u / 16384 * (4096 + u * (- 768 + u * (320 - 175 * u)))" by linarith
  have b1: "0 \<le> u * (74 - 47 * u)" using assms by (intro mult_nonneg_nonneg) simp_all
  have b1u: "u * (74 - 47 * u) \<le> 1 * 74" using assms u1 by (intro mult_mono) simp_all
  have b2a: "0 \<le> 128 - u * (74 - 47 * u)" "128 - u * (74 - 47 * u) \<le> 128"
    using b1 b1u by linarith+
  have b2: "0 \<le> u * (128 - u * (74 - 47 * u))"
    using assms b2a by (intro mult_nonneg_nonneg) simp_all
  have b2u: "u * (128 - u * (74 - 47 * u)) \<le> 1 * 128"
    using assms u1 b2a by (intro mult_mono) simp_all
  have e: "256 + u * (- 128 + u * (74 - 47 * u)) = 256 - u * (128 - u * (74 - 47 * u))"
    by (simp add: algebra_simps)
  have p2: "0 \<le> 256 + u * (- 128 + u * (74 - 47 * u))" unfolding e using b2u by linarith
  have p3: "256 + u * (- 128 + u * (74 - 47 * u)) \<le> 256" unfolding e using b2 by linarith
  show "0 \<le> u / 1024 * (256 + u * (- 128 + u * (74 - 47 * u)))"
    using assms p2 by (intro mult_nonneg_nonneg) simp_all
  have "u / 1024 * (256 + u * (- 128 + u * (74 - 47 * u))) \<le> (68 / 10000) / 1024 * 256"
    using assms p2 p3 by (intro mult_mono) simp_all
  then show "u / 1024 * (256 + u * (- 128 + u * (74 - 47 * u))) \<le> 2 / 1000" by linarith
qed


lemma cosSqAlpha_bounds:
  assumes u: "s1 * s1 + c1 * c1 = 1"
    and nz: "sinSigma_val s1 c1 s2 c2 lam \<noteq> 0"
  shows "s1 * s1 \<le> cosSqAlpha_val s1 c1 s2 c2 lam" "cosSqAlpha_val s1 c1 s2 c2 lam \<le> 1"
proof -
  define W where "W = c2 * sin lam"
  define Y where "Y = c1 * s2 - s1 * c2 * cos lam"
  define X where "X = W * W + Y * Y"
  have X0: "0 \<le> X" by (simp add: X_def)
  have sg: "sinSigma_val s1 c1 s2 c2 lam = sqrt X" by (simp add: sinSigma_val_def X_def W_def Y_def)
  have Xpos: "0 < X" using nz X0 sg by (cases "X = 0") simp_all
  have sq: "sqrt X * sqrt X = X" using X0 by simp
  have sA: "sinAlpha_val s1 c1 s2 c2 lam = c1 * W / sqrt X"
    by (simp add: sinAlpha_val_def sg W_def)
  have "(c1 * W / sqrt X) * (c1 * W / sqrt X) = (c1 * c1) * (W * W) / (sqrt X * sqrt X)"
    by simp
  then have sA2: "sinAlpha_val s1 c1 s2 c2 lam * sinAlpha_val s1 c1 s2 c2 lam
      = (c1 * c1) * (W * W / X)"
    unfolding sA sq by simp
  have "W * W \<le> X" by (simp add: X_def)
  then have w: "W * W / X \<le> 1" "0 \<le> W * W / X" using Xpos by simp_all
  have cc: "0 \<le> c1 * c1" by simp
  have "(c1 * c1) * (W * W / X) \<le> (c1 * c1) * 1" by (rule mult_left_mono[OF w(1) cc])
  then show "s1 * s1 \<le> cosSqAlpha_val s1 c1 s2 c2 lam"
    unfolding cosSqAlpha_val_def sA2 using u by linarith
  have "0 \<le> (c1 * c1) * (W * W / X)" by (rule mult_nonneg_nonneg[OF cc w(2)])
  then show "cosSqAlpha_val s1 c1 s2 c2 lam \<le> 1"
    unfolding cosSqAlpha_val_def sA2 by linarith
qed

lemma cos2SigmaM_bound:
  assumes q: "1 / 4 \<le> cosSqAlpha_val s1 c1 s2 c2 lam"
    and x: "\<bar>cosSigma_val s1 c1 s2 c2 lam\<bar> \<le> 1"
    and s: "\<bar>s1\<bar> \<le> 1" "\<bar>s2\<bar> \<le> 1"
  shows "\<bar>cos2SigmaM_val s1 c1 s2 c2 lam\<bar> \<le> 9"
proof -
  define q where "q = cosSqAlpha_val s1 c1 s2 c2 lam"
  have q: "1 / 4 \<le> q" using assms(1) by (simp add: q_def)
  have "\<bar>s1 * s2\<bar> \<le> 1 * 1" by (rule abs_mult_le[OF s])
  then have n: "\<bar>2 * s1 * s2\<bar> \<le> 2" by (simp add: abs_mult)
  have qpos: "0 < q" using q by linarith
  have "\<bar>2 * s1 * s2\<bar> / q \<le> 2 / (1 / 4)" using q n by (intro frac_le) simp_all
  then have "\<bar>2 * s1 * s2 / q\<bar> \<le> 2 / (1 / 4)" unfolding abs_div_pos[OF qpos] .
  then have "\<bar>2 * s1 * s2 / q\<bar> \<le> 8" by simp
  moreover have "cos2SigmaM_val s1 c1 s2 c2 lam = cosSigma_val s1 c1 s2 c2 lam - 2 * s1 * s2 / q"
    using q by (simp add: cos2SigmaM_val_def q_def)
  ultimately show ?thesis using x by linarith
qed

lemma s_val_lower:
  assumes q: "0 \<le> q" "q \<le> 1" and y: "\<bar>y\<bar> \<le> 1" and x: "\<bar>x\<bar> \<le> 1" and cM: "\<bar>cM\<bar> \<le> 9"
    and sg: "49 / 250 \<le> sg"
  shows "1100000 \<le> s_val 6378137 (63567523142 / 10 ^ 4) y x sg q cM"
proof -
  define a :: real where "a = 6378137"
  define b :: real where "b = 63567523142 / 10 ^ 4"
  define u where "u = q * (a * a - b * b) / (b * b)"
  define A where "A = 1 + u / 16384 * (4096 + u * (- 768 + u * (320 - 175 * u)))"
  define B where "B = u / 1024 * (256 + u * (- 128 + u * (74 - 47 * u)))"
  define dS where "dS = B * y * (cM + B / 4 * (x * (- 1 + 2 * cM * cM)
           - B / 6 * cM * (- 3 + 4 * y * y) * (- 3 + 4 * cM * cM)))"
  have e: "0 \<le> (a * a - b * b) / (b * b)" "(a * a - b * b) / (b * b) \<le> 68 / 10000"
    by (simp_all add: a_def b_def)
  have ue: "u = q * ((a * a - b * b) / (b * b))" by (simp add: u_def)
  have u0: "0 \<le> u" unfolding ue using q e by (intro mult_nonneg_nonneg)
  have "q * ((a * a - b * b) / (b * b)) \<le> 1 * (68 / 10000)" using q e by (intro mult_mono) simp_all
  then have u1: "u \<le> 68 / 10000" unfolding ue by simp
  have A: "1 \<le> A" unfolding A_def by (rule series_coefficients(1)[OF u0 u1])
  have B: "0 \<le> B" "B \<le> 2 / 1000"
    unfolding B_def by (rule series_coefficients(2)[OF u0 u1], rule series_coefficients(3)[OF u0 u1])
  have "\<bar>dS\<bar> \<le> 2 / 100" unfolding dS_def by (rule deltaSigma_small[OF B y x cM])
  then have d: "44 / 250 \<le> sg - dS" using sg by linarith
  have "1 * (44 / 250) \<le> A * (sg - dS)" using A d by (intro mult_mono) simp_all
  then have "b * (44 / 250) \<le> b * (A * (sg - dS))" by (intro mult_left_mono) (simp_all add: b_def)
  moreover have "1100000 \<le> b * (44 / 250)" by (simp add: b_def)
  moreover have "s_val a b y x sg q cM = b * A * (sg - dS)"
    by (simp only: s_val_def Let_def u_def A_def B_def dS_def)
  moreover have "b * A * (sg - dS) = b * (A * (sg - dS))" by (rule mult.assoc)
  ultimately show ?thesis unfolding a_def b_def by linarith
qed

lemma final_distance_vars_val:
  assumes b0: "b \<noteq> 0"
  shows "final_distance (Fin a) (Fin b) (vars_val f L s1 c1 s2 c2 lam)
    = NumericString (toFixed3 (Fin (s_val a b (sinSigma_val s1 c1 s2 c2 lam)
        (cosSigma_val s1 c1 s2 c2 lam) (sigma_val s1 c1 s2 c2 lam)
        (cosSqAlpha_val s1 c1 s2 c2 lam) (cos2SigmaM_val s1 c1 s2 c2 lam))))"
proof -
  define y where "y = sinSigma_val s1 c1 s2 c2 lam"
  define x where "x = cosSigma_val s1 c1 s2 c2 lam"
  define sg where "sg = sigma_val s1 c1 s2 c2 lam"
  define q where "q = cosSqAlpha_val s1 c1 s2 c2 lam"
  define cM where "cM = cos2SigmaM_val s1 c1 s2 c2 lam"
  define u where "u = q * (a * a - b * b) / (b * b)"
  define A where "A = 1 + u / 16384 * (4096 + u * (- 768 + u * (320 - 175 * u)))"
  define B where "B = u / 1024 * (256 + u * (- 128 + u * (74 - 47 * u)))"
  define dS where "dS = B * y * (cM + B / 4 * (x * (- 1 + 2 * cM * cM)
           - B / 6 * cM * (- 3 + 4 * y * y) * (- 3 + 4 * cM * cM)))"
  have e1: "Fin q * (Fin a * Fin a - Fin b * Fin b) / (Fin b * Fin b) = Fin u"
    using b0 by (simp add: u_def)
  have e2: "Fin 1 + Fin u / Fin 16384
        * (Fin 4096 + Fin u * (Fin (- 768) + Fin u * (Fin 320 - Fin 175 * Fin u))) = Fin A"
    by (simp add: A_def)
  have e3: "Fin u / Fin 1024 * (Fin 256 + Fin u * (Fin (- 128) + Fin u * (Fin 74 - Fin 47 * Fin u)))
      = Fin B"
    by (simp add: B_def)
  have e4: "Fin B * Fin y
        * (Fin cM + Fin B / Fin 4
            * (Fin x * (Fin (- 1) + Fin 2 * Fin cM * Fin cM)
               - Fin B / Fin 6 * Fin cM * (Fin (- 3) + Fin 4 * Fin y * Fin y)
                   * (Fin (- 3) + Fin 4 * Fin cM * Fin cM))) = Fin dS"
    by (simp add: dS_def)
  have e5: "Fin b * Fin A * (Fin sg - Fin dS) = Fin (b * A * (sg - dS))" by simp
  have s: "s_val a b y x sg q cM = b * A * (sg - dS)"
    by (simp only: s_val_def Let_def u_def A_def B_def dS_def)
  have "final_distance (Fin a) (Fin b)
      \<lparr>v_sinSigma = Fin y, v_cosSigma = Fin x, v_sigma = Fin sg, v_cosSqAlpha = Fin q,
       v_cos2SigmaM = Fin cM, v_lambda = Fin (lambda_val f L s1 c1 s2 c2 lam)\<rparr>
      = NumericString (toFixed3 (Fin (b * A * (sg - dS))))"
    unfolding final_distance_def Let_def loop_vars.select_convs e1 e2 e3 e4 e5 ..
  then have "final_distance (Fin a) (Fin b)
      \<lparr>v_sinSigma = Fin y, v_cosSigma = Fin x, v_sigma = Fin sg, v_cosSqAlpha = Fin q,
       v_cos2SigmaM = Fin cM, v_lambda = Fin (lambda_val f L s1 c1 s2 c2 lam)\<rparr>
      = NumericString (toFixed3 (Fin (s_val a b y x sg q cM)))"
    unfolding s .
  then show ?thesis
    unfolding vars_val_def y_def x_def sg_def q_def cM_def .
qed

lemma toFixed3_lower:
  assumes "1 \<le> s"
  shows "\<exists>z. toFixed3 (Fin s) = Fin z \<and> s - 1 / 1000 \<le> z"
proof (cases "10 ^ 21 \<le> \<bar>s\<bar>")
  case True
  then show ?thesis by simp
next
  case False
  have p: "\<bar>s\<bar> = s" "sgn s = 1" using assms by simp_all
  have "s * 1000 + 1 / 2 - 1 \<le> real_of_int \<lfloor>s * 1000 + 1 / 2\<rfloor>" by linarith
  then have l: "s - 1 / 1000 \<le> real_of_int \<lfloor>s * 1000 + 1 / 2\<rfloor> / 1000" by (simp add: field_simps)
  have "toFixed3 (Fin s) = Fin (real_of_int \<lfloor>s * 1000 + 1 / 2\<rfloor> / 1000)"
    using False by (simp add: p)
  with l show ?thesis by blast
qed

lemma loop_exit_form:
  assumes u: "s1 * s1 + c1 * c1 = 1"
  shows "(\<exists>lam'. sinSigma_val s1 c1 s2 c2 lam' = 0)
    \<or> (\<exists>lam' m'. sinSigma_val s1 c1 s2 c2 lam' \<noteq> 0
        \<and> vincenty_loop (Fin f) (Fin L) (Fin s1) (Fin c1) (Fin s2) (Fin c2) (Fin lam) m
          = Exit (vars_val f L s1 c1 s2 c2 lam') m')"
proof (induction "nat m" arbitrary: lam m rule: less_induct)
  case less
  let ?v = "vars_val f L s1 c1 s2 c2 lam"
  show ?case
  proof (cases "sinSigma_val s1 c1 s2 c2 lam = 0")
    case True
    then show ?thesis by blast
  next
    case nz: False
    have b: "loop_body (Fin f) (Fin L) (Fin s1) (Fin c1) (Fin s2) (Fin c2) (Fin lam) = Iterated ?v"
      using nz by (simp add: loop_body_finite[OF u])
    have vl: "v_lambda ?v = Fin (lambda_val f L s1 c1 s2 c2 lam)" by (simp add: vars_val_def)
    show ?thesis
    proof (cases "Math_abs (v_lambda ?v - Fin lam) > Fin (1 / 10 ^ 12)")
      case False
      then show ?thesis using loop_within[OF b] nz by blast
    next
      case far: True
      show ?thesis
      proof (cases "1 < m")
        case False
        then have "m \<le> 1" by simp
        then show ?thesis using loop_exhausted[OF b far] nz by blast
      next
        case True
        have "nat (m - 1) < nat m" using True by simp
        from less[OF this, of "lambda_val f L s1 c1 s2 c2 lam"]
        show ?thesis unfolding loop_again[OF b far True] vl .
      qed
    qed
  qed
qed


lemma test_vector_sigma:
  defines "U1 \<equiv> U_val (5006632 / 100000)" and "U2 \<equiv> U_val (5864402 / 100000)"
  shows "sinSigma_val (sin U1) (cos U1) (sin U2) (cos U2) lam \<noteq> 0"
    and "\<bar>sinSigma_val (sin U1) (cos U1) (sin U2) (cos U2) lam\<bar> \<le> 1"
    and "\<bar>cosSigma_val (sin U1) (cos U1) (sin U2) (cos U2) lam\<bar> \<le> 1"
    and "49 / 250 \<le> sigma_val (sin U1) (cos U1) (sin U2) (cos U2) lam"
    and "1 / 4 \<le> cosSqAlpha_val (sin U1) (cos U1) (sin U2) (cos U2) lam"
    and "cosSqAlpha_val (sin U1) (cos U1) (sin U2) (cos U2) lam \<le> 1"
    and "\<bar>cos2SigmaM_val (sin U1) (cos U1) (sin U2) (cos U2) lam\<bar> \<le> 9"
proof -
  define y where "y = sinSigma_val (sin U1) (cos U1) (sin U2) (cos U2) lam"
  define x where "x = cosSigma_val (sin U1) (cos U1) (sin U2) (cos U2) lam"
  note U = test_vector_latitudes[folded U1_def U2_def]
  have p: "3 \<le> pi" by (rule pi_ge_three)
  have U1: "0 < U1" "U1 < pi / 2" and U2: "0 < U2" "U2 < pi / 2" using U p by linarith+
  have id: "y\<^sup>2 + x\<^sup>2 = 1"
    unfolding y_def x_def by (rule sigma_identity[OF sin_cos_unit sin_cos_unit])
  have "y\<^sup>2 \<le> 1" "x\<^sup>2 \<le> 1" using id zero_le_power2[of x] zero_le_power2[of y] by linarith+
  then show ya: "\<bar>sinSigma_val (sin U1) (cos U1) (sin U2) (cos U2) lam\<bar> \<le> 1"
    and xa: "\<bar>cosSigma_val (sin U1) (cos U1) (sin U2) (cos U2) lam\<bar> \<le> 1"
    unfolding y_def x_def by (simp_all add: abs_square_le_1)
  have s1: "1 / 2 \<le> sin U1"
    using sin_monotone_2pi_le[of "pi / 6" U1] U U1 p by (simp add: sin_30)
  have s2: "1 / 2 \<le> sin U2"
    using sin_monotone_2pi_le[of "pi / 6" U2] U U2 p by (simp add: sin_30)
  have c1: "0 < cos U1" using U1 by (intro cos_gt_zero_pi) linarith+
  have c2: "0 < cos U2" using U2 by (intro cos_gt_zero_pi) linarith+
  have cc: "0 < cos U1 * cos U2" using c1 c2 by simp
  have cc1: "cos U1 * cos U2 \<le> 1 * 1" using c1 c2 by (intro mult_mono) simp_all
  have ss: "0 < sin U1 * sin U2" using s1 s2 by (intro mult_pos_pos) linarith+
  have "cos U1 * cos U2 * (- 1) \<le> cos U1 * cos U2 * cos lam"
    using cc by (intro mult_left_mono) simp_all
  then have xl: "- 1 < x" unfolding x_def cosSigma_val_def using ss cc1 by linarith
  define d where "d = U2 - U1"
  have d: "0 < d" "d < pi / 2" using U U1 U2 by (simp_all add: d_def)
  have "cos U1 * cos U2 * cos lam \<le> cos U1 * cos U2 * 1"
    using cc by (intro mult_left_mono) simp_all
  then have "x \<le> cos d" by (simp add: x_def cosSigma_val_def d_def cos_diff mult.commute)
  moreover have "cos d < cos 0" using d p by (intro cos_monotone_0_pi) linarith+
  ultimately have xu: "x < 1" by simp
  have "x\<^sup>2 < 1" using xl xu by (simp add: abs_square_less_1)
  then have "y\<^sup>2 \<noteq> 0" using id by linarith
  then show nz: "sinSigma_val (sin U1) (cos U1) (sin U2) (cos U2) lam \<noteq> 0"
    unfolding y_def by simp
  have "U2 - U1 \<le> sigma_val (sin U1) (cos U1) (sin U2) (cos U2) lam"
    using U U1 by (intro sigma_lower nz) linarith+
  then show "49 / 250 \<le> sigma_val (sin U1) (cos U1) (sin U2) (cos U2) lam"
    using U by linarith
  have "1 / 2 * (1 / 2) \<le> sin U1 * sin U1" using s1 by (intro mult_mono) simp_all
  moreover note q = cosSqAlpha_bounds[OF sin_cos_unit nz]
  ultimately show q4: "1 / 4 \<le> cosSqAlpha_val (sin U1) (cos U1) (sin U2) (cos U2) lam"
    using q(1) by linarith
  show "cosSqAlpha_val (sin U1) (cos U1) (sin U2) (cos U2) lam \<le> 1" by (rule q(2))
  show "\<bar>cos2SigmaM_val (sin U1) (cos U1) (sin U2) (cos U2) lam\<bar> \<le> 9"
    by (rule cos2SigmaM_bound[OF q4 xa]) simp_all
qed

text \<open>
  Claim C2 says that \<open>distVincenty\<close> returns about 969954.166 for Vincenty's test
  vector. With the reduced latitudes of the code (see claim C1) it does not: whatever
  the loop does, the function returns \<open>NaN\<close> or a string that denotes more than
  1000000.
\<close>

theorem distVincenty_test_vector:
  "distVincenty (Fin (5006632 / 100000)) (Fin (- (571475 / 100000)))
       (Fin (5864402 / 100000)) (Fin (- (307009 / 100000))) = Number NaN
   \<or> (\<exists>z. distVincenty (Fin (5006632 / 100000)) (Fin (- (571475 / 100000)))
              (Fin (5864402 / 100000)) (Fin (- (307009 / 100000))) = NumericString (Fin z)
          \<and> 1000000 < z)"
proof -
  define U1 where "U1 = U_val (5006632 / 100000)"
  define U2 where "U2 = U_val (5864402 / 100000)"
  define L :: real where "L = (- (307009 / 100000) - - (571475 / 100000)) * pi / 180"
  let ?loop = "vincenty_loop (Fin f_val) (Fin L) (Fin (sin U1)) (Fin (cos U1))
      (Fin (sin U2)) (Fin (cos U2)) (Fin L) 100"
  note tv = test_vector_sigma[folded U1_def U2_def]
  have dv: "distVincenty (Fin (5006632 / 100000)) (Fin (- (571475 / 100000)))
       (Fin (5864402 / 100000)) (Fin (- (307009 / 100000)))
     = (case ?loop of Return v \<Rightarrow> v
        | Exit vars iterLimit \<Rightarrow> if 0 = iterLimit then Number NaN
            else final_distance (Fin 6378137) (Fin (63567523142 / 10 ^ 4)) vars)"
    unfolding distVincenty_Fin U1_def U2_def L_def ..
  obtain lam' m' where ex: "?loop = Exit (vars_val f_val L (sin U1) (cos U1) (sin U2) (cos U2) lam') m'"
    using loop_exit_form[OF sin_cos_unit, of U1 "sin U2" "cos U2" f_val L L 100] tv(1) by blast
  show ?thesis
  proof (cases "m' = 0")
    case True
    then show ?thesis unfolding dv ex by simp
  next
    case False
    define s where "s = s_val 6378137 (63567523142 / 10 ^ 4)
        (sinSigma_val (sin U1) (cos U1) (sin U2) (cos U2) lam')
        (cosSigma_val (sin U1) (cos U1) (sin U2) (cos U2) lam')
        (sigma_val (sin U1) (cos U1) (sin U2) (cos U2) lam')
        (cosSqAlpha_val (sin U1) (cos U1) (sin U2) (cos U2) lam')
        (cos2SigmaM_val (sin U1) (cos U1) (sin U2) (cos U2) lam')"
    have q0: "0 \<le> cosSqAlpha_val (sin U1) (cos U1) (sin U2) (cos U2) lam'"
      using tv(5)[of lam'] by linarith
    have s: "1100000 \<le> s"
      unfolding s_def by (rule s_val_lower[OF q0 tv(6) tv(2) tv(3) tv(7) tv(4)])
    then obtain z where z: "toFixed3 (Fin s) = Fin z" "s - 1 / 1000 \<le> z"
      using toFixed3_lower[of s] by auto
    have "final_distance (Fin 6378137) (Fin (63567523142 / 10 ^ 4))
        (vars_val f_val L (sin U1) (cos U1) (sin U2) (cos U2) lam') = NumericString (Fin z)"
      unfolding z(1)[symmetric] s_def by (rule final_distance_vars_val) simp
    moreover have "1000000 < z" using s z(2) by linarith
    ultimately show ?thesis unfolding dv ex using False by simp
  qed
qed

section \<open>The parallax angle\<close>

text \<open>
  Claim C8. For finite right ascensions and declinations, \<open>parallaxAngle\<close> returns
  exactly \<open>sqrt (|ra2 - ra1|^2 + |dec1 - dec2|^2)\<close>; the result is never negative, and
  it is 0 when the two observations are identical.
\<close>

theorem parallaxAngle_pythagoras:
  "parallaxAngle (Fin ra1) (Fin dec1) (Fin ra2) (Fin dec2)
     = Fin (sqrt (\<bar>ra2 - ra1\<bar> ^ 2 + \<bar>dec1 - dec2\<bar> ^ 2))
   \<and> Fin 0 \<le> parallaxAngle (Fin ra1) (Fin dec1) (Fin ra2) (Fin dec2)
   \<and> parallaxAngle (Fin ra1) (Fin dec1) (Fin ra1) (Fin dec1) = Fin 0"
  by (simp add: parallaxAngle_def Let_def power2_commute)

section \<open>The chord\<close>

lemma abs_sin_less_self:
  fixes t :: real
  assumes "0 < t"
  shows "\<bar>sin t\<bar> < t"
proof (cases "t \<le> 1")
  case False
  have "\<bar>sin t\<bar> \<le> 1" by simp
  with False show ?thesis by linarith
next
  case True
  define h where "h = t / 2"
  have h: "0 < h" "h < 1" "t = 2 * h" using assms True by (simp_all add: h_def)
  have hpi: "h < pi" using h pi_ge_two by linarith
  have s: "0 < sin h" using h hpi by (simp add: sin_gt_zero)
  have c1: "cos h < 1" using h hpi cos_monotone_0_pi[of 0 h] by simp
  have "sin t = 2 * sin h * cos h" unfolding h(3) by (rule sin_double)
  also have "\<dots> < 2 * sin h * 1" using s c1 by (intro mult_strict_left_mono) simp_all
  also have "\<dots> \<le> 2 * h" using sin_x_le_x[of h] h by simp
  finally have "sin t < t" using h by simp
  moreover have "0 < sin t" using assms True pi_ge_two by (intro sin_gt_zero) linarith+
  ultimately show ?thesis by simp
qed

lemma chord_half_angle:
  fixes r x :: real
  assumes "0 < r"
  shows "sqrt (r^2 + r^2 - 2 * r * r * cos (x / r)) = 2 * r * \<bar>sin (x / (2 * r))\<bar>"
proof -
  have "cos (x / r) = 1 - 2 * (sin (x / (2 * r)))^2"
    using cos_double_sin[of "x / (2 * r)"] by simp
  then have "r^2 + r^2 - 2 * r * r * cos (x / r) = (2 * r * sin (x / (2 * r)))^2"
    by (simp only:) (simp add: power2_eq_square algebra_simps)
  then have "sqrt (r^2 + r^2 - 2 * r * r * cos (x / r)) = \<bar>2 * r * sin (x / (2 * r))\<bar>"
    by (simp only: real_sqrt_abs)
  then show ?thesis using assms by (simp add: abs_mult)
qed

text \<open>
  In exact arithmetic the formula of \<open>distTunnel\<close> is
  \<open>sqrt (2 r^2 - 2 r^2 cos (x / r))\<close> with \<open>r = 6356.7523142\<close>, which is
  \<open>2 r |sin (x / (2 r))|\<close>, and for every arc length \<open>x > 0\<close> it is strictly below
  \<open>x\<close>.
\<close>

lemma chord_formula_less_arc:
  "0 < x \<Longrightarrow>
   distTunnel (Fin x)
     = Fin (sqrt (2 * (63567523142 / 10 ^ 7)^2
                  - 2 * (63567523142 / 10 ^ 7)^2 * cos (x / (63567523142 / 10 ^ 7))))
   \<and> distTunnel (Fin x) < Fin x"
proof -
  assume x: "0 < x"
  define r :: real where "r = 63567523142 / 10 ^ 7"
  have r: "0 < r" by (simp add: r_def)
  have nn: "0 \<le> r^2 + r^2 - 2 * r * r * cos (x / r)"
  proof -
    have "2 * r * r * cos (x / r) \<le> 2 * r * r * 1"
      using r by (intro mult_left_mono) simp_all
    then show ?thesis by (simp add: power2_eq_square)
  qed
  have d: "distTunnel (Fin x) = Fin (sqrt (r^2 + r^2 - 2 * r * r * cos (x / r)))"
    using nn r by (simp add: distTunnel_def Let_def r_def)
  have "\<bar>sin (x / (2 * r))\<bar> < x / (2 * r)" using x r by (intro abs_sin_less_self) simp
  then have "2 * r * \<bar>sin (x / (2 * r))\<bar> < 2 * r * (x / (2 * r))"
    using r by (intro mult_strict_left_mono) simp_all
  then have lt: "sqrt (r^2 + r^2 - 2 * r * r * cos (x / r)) < x"
    using r chord_half_angle[OF r, of x] by simp
  have e: "r^2 + r^2 - 2 * r * r * cos (x / r) = 2 * r^2 - 2 * r^2 * cos (x / r)"
    by (simp add: power2_eq_square)
  show ?thesis using d lt unfolding e by (simp add: r_def)
qed

lemma distTunnel_zero: "distTunnel (Fin 0) = Fin 0"
  by (simp add: distTunnel_def Let_def power2_eq_square)

section \<open>The chord in binary64 arithmetic: an arc of ten centimetres\<close>

text \<open>
  A real number that lies in the binade of exponent \<open>e + 52\<close> and within half a unit
  in the last place of \<open>n * 2^e\<close> is rounded to \<open>n * 2^e\<close>.
\<close>

lemma two_to_powr: "two_to e = 2 powr (real_of_int e)"
  unfolding two_to_def by (simp add: powr_int)

lemma two_to_pos: "0 < two_to e"
  by (simp add: two_to_powr)

lemma round_ties_even_nearest:
  assumes "\<bar>x - of_int n\<bar> < 1 / 2"
  shows "round_ties_even x = n"
proof -
  have "real_of_int n - 1 / 2 < x" "x < real_of_int n + 1 / 2" using assms by linarith+
  then consider "\<lfloor>x\<rfloor> = n" | "\<lfloor>x\<rfloor> = n - 1" by linarith
  then show ?thesis
  proof cases
    case 1
    have "x - of_int \<lfloor>x\<rfloor> < 1 / 2" unfolding 1 using assms by linarith
    then show ?thesis using 1 unfolding round_ties_even_def Let_def by simp
  next
    case 2
    have "1 / 2 < x - of_int \<lfloor>x\<rfloor>" using 2 assms floor_correct[of x] by linarith
    then show ?thesis using 2 unfolding round_ties_even_def Let_def by simp
  qed
qed

lemma binary64_nearest:
  fixes x :: real and e n :: int
  assumes lo: "two_to (e + 52) \<le> \<bar>x\<bar>" and hi: "\<bar>x\<bar> < two_to (e + 53)"
    and e: "- 1074 \<le> e" "e \<le> 970"
    and n: "\<bar>x / two_to e - of_int n\<bar> < 1 / 2"
  shows "binary64 x = Fin (of_int n * two_to e)"
proof -
  have x0: "x \<noteq> 0" using lo two_to_pos[of "e + 52"] by auto
  have ax: "0 < \<bar>x\<bar>" using x0 by simp
  have "2 powr real_of_int (e + 52) \<le> \<bar>x\<bar> \<and> \<bar>x\<bar> < 2 powr (real_of_int (e + 52) + 1)"
    using lo hi by (simp add: two_to_powr add.commute)
  then have "\<lfloor>log 2 \<bar>x\<bar>\<rfloor> = e + 52"
    using floor_log_eq_powr_iff[OF ax, of 2 "e + 52"] by simp
  then have ex: "binary64_exponent x - 52 = e"
    using e unfolding binary64_exponent_def by simp
  have r: "round_ties_even (x / two_to e) = n" by (rule round_ties_even_nearest[OF n])
  have u: "0 < two_to e" by (rule two_to_pos)
  have "\<bar>x / two_to e\<bar> < two_to (e + 53) / two_to e"
    using hi u by (simp add: divide_strict_right_mono)
  also have "two_to (e + 53) / two_to e = 2 ^ 53"
    by (simp add: two_to_powr powr_add)
  finally have "\<bar>real_of_int n\<bar> < 2 ^ 53 + 1 / 2" using n by linarith
  then have "real_of_int \<bar>n\<bar> < real_of_int (2 ^ 53 + 1)" by simp
  then have "\<bar>n\<bar> < 2 ^ 53 + 1" by (simp only: of_int_less_iff)
  then have "\<bar>n\<bar> \<le> 2 ^ 53" by linarith
  then have "real_of_int \<bar>n\<bar> \<le> real_of_int (2 ^ 53)" by (simp only: of_int_le_iff)
  then have nb: "\<bar>real_of_int n\<bar> \<le> 2 ^ 53" by simp
  have "two_to e \<le> two_to 970" unfolding two_to_powr using e by (intro powr_mono) simp_all
  then have "\<bar>real_of_int n * two_to e\<bar> \<le> 2 ^ 53 * two_to 970"
    using nb u unfolding abs_mult by (intro mult_mono) simp_all
  also have "\<dots> < 2 ^ 1024" by (simp add: two_to_def)
  finally have fin: "\<not> 2 ^ 1024 \<le> \<bar>real_of_int n * two_to e\<bar>" by simp
  show ?thesis unfolding binary64_def Let_def ex r using x0 fin by simp
qed

text \<open>The cosine from above, to locate the cosine of a small angle between two binary64 values.\<close>

lemma cos_le_quartic:
  fixes x :: real
  assumes "0 \<le> x" "x \<le> 1"
  shows "cos x \<le> 1 - x ^ 2 / 2 + x ^ 4 / 24"
proof -
  define h where "h = x / 2"
  have h: "0 \<le> h" "h \<le> 1 / 2" using assms by (simp_all add: h_def)
  have s: "h - h ^ 3 / 6 \<le> sin h" using h by (intro sin_ge_cubic) simp
  have "h ^ 2 \<le> (1 / 2) ^ 2" using h by (intro power_mono) simp_all
  then have "0 \<le> 1 - h ^ 2 / 6" by (simp add: power2_eq_square)
  then have "0 \<le> h * (1 - h ^ 2 / 6)" using h by (intro mult_nonneg_nonneg) simp_all
  then have nn: "0 \<le> h - h ^ 3 / 6" by (simp add: algebra_simps power2_eq_square power3_eq_cube)
  have "(h - h ^ 3 / 6) ^ 2 \<le> (sin h) ^ 2" using s nn by (intro power_mono) simp_all
  moreover have "cos x = 1 - 2 * (sin h) ^ 2" using cos_double_sin[of h] by (simp add: h_def)
  ultimately have "cos x \<le> 1 - 2 * (h - h ^ 3 / 6) ^ 2" by linarith
  also have "\<dots> = 1 - x ^ 2 / 2 + x ^ 4 / 24 - x ^ 6 / 1152"
    unfolding h_def by (simp add: power2_eq_square power3_eq_cube power4_eq_xxxx algebra_simps eval_nat_numeral)
  also have "\<dots> \<le> 1 - x ^ 2 / 2 + x ^ 4 / 24" using assms by simp
  finally show ?thesis .
qed

text \<open>
  The operations of \<open>distTunnel(0.0001)\<close>, one by one: the literals, the quotient
  \<open>theta\<close>, its cosine, the square \<open>r**2\<close>, the sum, the products and the difference.
\<close>

lemma r64: "binary64 (63567523142 / 10 ^ 7) = Fin (6989323084354897 / 2 ^ 40)"
  using binary64_nearest[of "- 40" "63567523142 / 10 ^ 7" 6989323084354897]
  by (simp add: two_to_def)

lemma x64: "binary64 (1 / 10000) = Fin (7378697629483821 / 2 ^ 66)"
  using binary64_nearest[of "- 66" "1 / 10000" 7378697629483821]
  by (simp add: two_to_def)

lemma theta64:
  "binary64 ((7378697629483821 / 2 ^ 66) / (6989323084354897 / 2 ^ 40))
     = Fin (4754494747711328 / 2 ^ 78)"
  using binary64_nearest[of "- 78" "(7378697629483821 / 2 ^ 66) / (6989323084354897 / 2 ^ 40)"
      4754494747711328]
  by (simp add: two_to_def)

lemma cos64: "binary64 (cos (4754494747711328 / 2 ^ 78)) = Fin (9007199254740991 / 2 ^ 53)"
proof -
  define t :: real where "t = 4754494747711328 / 2 ^ 78"
  have t: "0 \<le> t" "t \<le> 1" by (simp_all add: t_def)
  have l: "1 - t ^ 2 / 2 \<le> cos t" by (rule cos_ge_parabola)
  have u: "cos t \<le> 1 - t ^ 2 / 2 + t ^ 4 / 24" by (rule cos_le_quartic[OF t])
  have l': "(2 ^ 53 - 3 / 2) / 2 ^ 53 < 1 - t ^ 2 / 2" by (simp add: t_def power2_eq_square)
  have u': "1 - t ^ 2 / 2 + t ^ 4 / 24 < (2 ^ 53 - 1 / 2) / 2 ^ 53"
    by (simp add: t_def power2_eq_square power4_eq_xxxx)
  have b: "(2 ^ 53 - 3 / 2) / 2 ^ 53 < cos t" "cos t < (2 ^ 53 - 1 / 2) / 2 ^ 53"
    using l l' u u' by linarith+
  have b1: "9007199254740991 - 1 / 2 < cos t * 9007199254740992" using b(1) by (simp add: field_simps)
  have b2: "cos t * 9007199254740992 < 9007199254740991 + 1 / 2" using b(2) by (simp add: field_simps)
  have e: "cos t / two_to (- 53) = cos t * 9007199254740992" by (simp add: two_to_def)
  have c1: "1 / 2 \<le> cos t" using b(1) by simp
  have c2: "cos t < 1" using b(2) by simp
  have "binary64 (cos t) = Fin (real_of_int 9007199254740991 * two_to (- 53))"
  proof (rule binary64_nearest)
    show "two_to (- 53 + 52) \<le> \<bar>cos t\<bar>" using c1 by (simp add: two_to_def)
    show "\<bar>cos t\<bar> < two_to (- 53 + 53)" using c1 c2 by (simp add: two_to_def)
    show "\<bar>cos t / two_to (- 53) - real_of_int 9007199254740991\<bar> < 1 / 2"
      unfolding e of_int_numeral using b1 b2 by linarith
  qed simp_all
  then show ?thesis by (simp add: t_def two_to_def)
qed

lemma square64:
  "binary64 ((6989323084354897 / 2 ^ 40) ^ 2) = Fin (5423510216206601 / 2 ^ 27)"
  using binary64_nearest[of "- 27" "(6989323084354897 / 2 ^ 40) ^ 2" 5423510216206601]
  by (simp add: two_to_def power2_eq_square)

lemma sum64:
  "binary64 (5423510216206601 / 2 ^ 27 + 5423510216206601 / 2 ^ 27)
     = Fin (5423510216206601 / 2 ^ 26)"
  using binary64_nearest[of "- 26" "5423510216206601 / 2 ^ 27 + 5423510216206601 / 2 ^ 27"
      5423510216206601]
  by (simp add: two_to_def)

lemma double64:
  "binary64 (2 * (6989323084354897 / 2 ^ 40)) = Fin (6989323084354897 / 2 ^ 39)"
  using binary64_nearest[of "- 39" "2 * (6989323084354897 / 2 ^ 40)" 6989323084354897]
  by (simp add: two_to_def)

lemma product64:
  "binary64 (6989323084354897 / 2 ^ 39 * (6989323084354897 / 2 ^ 40))
     = Fin (5423510216206601 / 2 ^ 26)"
  using binary64_nearest[of "- 26" "6989323084354897 / 2 ^ 39 * (6989323084354897 / 2 ^ 40)"
      5423510216206601]
  by (simp add: two_to_def)

lemma product_cos64:
  "binary64 (5423510216206601 / 2 ^ 26 * (9007199254740991 / 2 ^ 53))
     = Fin (5423510216206600 / 2 ^ 26)"
  using binary64_nearest[of "- 26" "5423510216206601 / 2 ^ 26 * (9007199254740991 / 2 ^ 53)"
      5423510216206600]
  by (simp add: two_to_def)

lemma difference64:
  "binary64 (5423510216206601 / 2 ^ 26 - 5423510216206600 / 2 ^ 26) = Fin (1 / 2 ^ 26)"
  using binary64_nearest[of "- 78" "5423510216206601 / 2 ^ 26 - 5423510216206600 / 2 ^ 26"
      4503599627370496]
  by (simp add: two_to_def)

lemma sqrt64: "binary64 (sqrt (1 / 2 ^ 26)) = Fin (1 / 2 ^ 13)"
proof -
  have p: "(1 / 2 ^ 26 :: real) = (1 / 2 ^ 13)\<^sup>2" by (simp add: power_divide)
  have s: "sqrt (1 / 2 ^ 26) = 1 / 2 ^ 13" by (subst p) (simp only: real_sqrt_abs, simp)
  show ?thesis
    unfolding s using binary64_nearest[of "- 65" "1 / 2 ^ 13" 4503599627370496]
    by (simp add: two_to_def)
qed

text \<open>
  The same for \<open>distTunnel(1)\<close>, an arc of one kilometre: the difference
  \<open>r**2 + r**2 - 2*r*r*Math.cos(theta)\<close> comes out as exactly 1.
\<close>

lemma binary64_one: "binary64 1 = Fin 1"
  using binary64_nearest[of "- 52" 1 4503599627370496] by (simp add: two_to_def)

lemma theta_km64:
  "binary64 (1 / (6989323084354897 / 2 ^ 40)) = Fin (5803826596327305 / 2 ^ 65)"
  using binary64_nearest[of "- 65" "1 / (6989323084354897 / 2 ^ 40)" 5803826596327305]
  by (simp add: two_to_def)

lemma cos_km64:
  "binary64 (cos (5803826596327305 / 2 ^ 65)) = Fin (9007199143288651 / 2 ^ 53)"
proof -
  define t :: real where "t = 5803826596327305 / 2 ^ 65"
  have t: "0 \<le> t" "t \<le> 1" by (simp_all add: t_def)
  have l: "1 - t ^ 2 / 2 \<le> cos t" by (rule cos_ge_parabola)
  have u: "cos t \<le> 1 - t ^ 2 / 2 + t ^ 4 / 24" by (rule cos_le_quartic[OF t])
  have l': "(9007199143288651 - 1 / 2) / 2 ^ 53 < 1 - t ^ 2 / 2"
    by (simp add: t_def power2_eq_square)
  have u': "1 - t ^ 2 / 2 + t ^ 4 / 24 < (9007199143288651 + 1 / 2) / 2 ^ 53"
    by (simp add: t_def power2_eq_square power4_eq_xxxx)
  have b: "(9007199143288651 - 1 / 2) / 2 ^ 53 < cos t" "cos t < (9007199143288651 + 1 / 2) / 2 ^ 53"
    using l l' u u' by linarith+
  have b1: "9007199143288651 - 1 / 2 < cos t * 9007199254740992"
    using b(1) by (simp add: field_simps)
  have b2: "cos t * 9007199254740992 < 9007199143288651 + 1 / 2"
    using b(2) by (simp add: field_simps)
  have e: "cos t / two_to (- 53) = cos t * 9007199254740992" by (simp add: two_to_def)
  have c1: "1 / 2 \<le> cos t" using b(1) by simp
  have c2: "cos t < 1" using b(2) by simp
  have "binary64 (cos t) = Fin (real_of_int 9007199143288651 * two_to (- 53))"
  proof (rule binary64_nearest)
    show "two_to (- 53 + 52) \<le> \<bar>cos t\<bar>" using c1 by (simp add: two_to_def)
    show "\<bar>cos t\<bar> < two_to (- 53 + 53)" using c1 c2 by (simp add: two_to_def)
    show "\<bar>cos t / two_to (- 53) - real_of_int 9007199143288651\<bar> < 1 / 2"
      unfolding e of_int_numeral using b1 b2 by linarith
  qed simp_all
  then show ?thesis by (simp add: t_def two_to_def)
qed

lemma product_cos_km64:
  "binary64 (5423510216206601 / 2 ^ 26 * (9007199143288651 / 2 ^ 53))
     = Fin (5423510149097737 / 2 ^ 26)"
  using binary64_nearest[of "- 26" "5423510216206601 / 2 ^ 26 * (9007199143288651 / 2 ^ 53)"
      5423510149097737]
  by (simp add: two_to_def)

lemma difference_km64:
  "binary64 (5423510216206601 / 2 ^ 26 - 5423510149097737 / 2 ^ 26) = Fin 1"
  using binary64_nearest[of "- 52" "5423510216206601 / 2 ^ 26 - 5423510149097737 / 2 ^ 26"
      4503599627370496]
  by (simp add: two_to_def)

lemma distTunnel_binary64_km: "distTunnel_binary64 (Fin 1) = Fin 1"
proof -
  define r :: real where "r = 6989323084354897 / 2 ^ 40"
  define th :: real where "th = 5803826596327305 / 2 ^ 65"
  define c :: real where "c = 9007199143288651 / 2 ^ 53"
  define R :: real where "R = 5423510216206601 / 2 ^ 27"
  define S :: real where "S = 5423510216206601 / 2 ^ 26"
  define T1 :: real where "T1 = 6989323084354897 / 2 ^ 39"
  define T3 :: real where "T3 = 5423510149097737 / 2 ^ 26"
  have e_r: "rounded (Fin (63567523142 / 10 ^ 7)) = Fin r" unfolding r_def rounded.simps by (rule r64)
  have e_q: "Fin 1 / Fin r = Fin (1 / r)" by (simp add: r_def)
  have e_th: "rounded (Fin (1 / r)) = Fin th" unfolding r_def th_def rounded.simps by (rule theta_km64)
  have e_c0: "Math_cos (Fin th) = Fin (cos th)" by simp
  have e_c: "rounded (Fin (cos th)) = Fin c" unfolding th_def c_def rounded.simps by (rule cos_km64)
  have e_p: "pow2 (Fin r) = Fin (r ^ 2)" by simp
  have e_R: "rounded (Fin (r ^ 2)) = Fin R" unfolding r_def R_def rounded.simps by (rule square64)
  have e_s: "Fin R + Fin R = Fin (R + R)" by simp
  have e_S: "rounded (Fin (R + R)) = Fin S" unfolding R_def S_def rounded.simps by (rule sum64)
  have e_t1: "Fin 2 * Fin r = Fin (2 * r)" by simp
  have e_T1: "rounded (Fin (2 * r)) = Fin T1" unfolding r_def T1_def rounded.simps by (rule double64)
  have e_t2: "Fin T1 * Fin r = Fin (T1 * r)" by simp
  have e_T2: "rounded (Fin (T1 * r)) = Fin S"
    unfolding r_def T1_def S_def rounded.simps by (rule product64)
  have e_t3: "Fin S * Fin c = Fin (S * c)" by simp
  have e_T3: "rounded (Fin (S * c)) = Fin T3"
    unfolding S_def c_def T3_def rounded.simps by (rule product_cos_km64)
  have e_d: "Fin S - Fin T3 = Fin (S - T3)" by simp
  have e_D: "rounded (Fin (S - T3)) = Fin 1"
    unfolding S_def T3_def rounded.simps by (rule difference_km64)
  have e_sq: "Math_sqrt (Fin 1) = Fin 1" by simp
  have e_res: "rounded (Fin 1) = Fin 1" unfolding rounded.simps by (rule binary64_one)
  show ?thesis
    unfolding distTunnel_binary64_def Let_def e_r e_q e_th e_c0 e_c e_p e_R e_s e_S
      e_t1 e_T1 e_t2 e_T2 e_t3 e_T3 e_d e_D e_sq e_res ..
qed

text \<open>
  Claim C7 says that the chord is at most the arc for every arc length \<open>x > 0\<close>, with
  equality only in the limit \<open>x \<rightarrow> 0\<close>. For the arc length \<open>0.0001\<close> (ten
  centimetres; the unit is the kilometre) the cosine of \<open>theta = 1.57e-8\<close> is the
  binary64 value next below 1, the product \<open>2*r*r*Math.cos(theta)\<close> is rounded to the
  value next below \<open>r**2 + r**2\<close>, and the difference is one unit in the last place of
  \<open>r**2 + r**2\<close>, which is \<open>2^-26\<close>, whatever the arc length was: the code returns
  \<open>2^-13 = 0.0001220703125\<close>, a chord longer than the arc by a fifth. For the arc
  length 1 the code returns exactly 1, a chord equal to the arc.
\<close>

theorem distTunnel_chord_exceeds_arc:
  "distTunnel_binary64 (rounded (Fin (1 / 10000))) = Fin (1 / 8192)
   \<and> rounded (Fin (1 / 10000)) < distTunnel_binary64 (rounded (Fin (1 / 10000)))
   \<and> distTunnel_binary64 (Fin 1) = Fin 1"
proof -
  define x :: real where "x = 7378697629483821 / 2 ^ 66"
  define r :: real where "r = 6989323084354897 / 2 ^ 40"
  define th :: real where "th = 4754494747711328 / 2 ^ 78"
  define c :: real where "c = 9007199254740991 / 2 ^ 53"
  define R :: real where "R = 5423510216206601 / 2 ^ 27"
  define S :: real where "S = 5423510216206601 / 2 ^ 26"
  define T1 :: real where "T1 = 6989323084354897 / 2 ^ 39"
  define T3 :: real where "T3 = 5423510216206600 / 2 ^ 26"
  define D :: real where "D = 1 / 2 ^ 26"
  have e_x: "rounded (Fin (1 / 10000)) = Fin x" unfolding x_def rounded.simps by (rule x64)
  have e_r: "rounded (Fin (63567523142 / 10 ^ 7)) = Fin r" unfolding r_def rounded.simps by (rule r64)
  have e_q: "Fin x / Fin r = Fin (x / r)" by (simp add: r_def)
  have e_th: "rounded (Fin (x / r)) = Fin th"
    unfolding x_def r_def th_def rounded.simps by (rule theta64)
  have e_c0: "Math_cos (Fin th) = Fin (cos th)" by simp
  have e_c: "rounded (Fin (cos th)) = Fin c" unfolding th_def c_def rounded.simps by (rule cos64)
  have e_p: "pow2 (Fin r) = Fin (r ^ 2)" by simp
  have e_R: "rounded (Fin (r ^ 2)) = Fin R" unfolding r_def R_def rounded.simps by (rule square64)
  have e_s: "Fin R + Fin R = Fin (R + R)" by simp
  have e_S: "rounded (Fin (R + R)) = Fin S" unfolding R_def S_def rounded.simps by (rule sum64)
  have e_t1: "Fin 2 * Fin r = Fin (2 * r)" by simp
  have e_T1: "rounded (Fin (2 * r)) = Fin T1" unfolding r_def T1_def rounded.simps by (rule double64)
  have e_t2: "Fin T1 * Fin r = Fin (T1 * r)" by simp
  have e_T2: "rounded (Fin (T1 * r)) = Fin S"
    unfolding r_def T1_def S_def rounded.simps by (rule product64)
  have e_t3: "Fin S * Fin c = Fin (S * c)" by simp
  have e_T3: "rounded (Fin (S * c)) = Fin T3"
    unfolding S_def c_def T3_def rounded.simps by (rule product_cos64)
  have e_d: "Fin S - Fin T3 = Fin (S - T3)" by simp
  have e_D: "rounded (Fin (S - T3)) = Fin D"
    unfolding S_def T3_def D_def rounded.simps by (rule difference64)
  have e_sq: "Math_sqrt (Fin D) = Fin (sqrt D)" by (simp add: D_def)
  have e_res: "rounded (Fin (sqrt D)) = Fin (1 / 2 ^ 13)"
    unfolding D_def rounded.simps by (rule sqrt64)
  have v: "distTunnel_binary64 (Fin x) = Fin (1 / 2 ^ 13)"
    unfolding distTunnel_binary64_def Let_def e_r e_q e_th e_c0 e_c e_p e_R e_s e_S
      e_t1 e_T1 e_t2 e_T2 e_t3 e_T3 e_d e_D e_sq e_res ..
  have "Fin x < Fin (1 / 2 ^ 13)" by (simp add: x_def)
  then show ?thesis unfolding e_x v using distTunnel_binary64_km by simp
qed

text \<open>
  The result does not rest on the last bit of \<open>Math.cos\<close>: the exact cosine lies
  between the binary64 value next below 1 and the one below that, and the second gives
  the same product as the first.
\<close>

lemma product_cos_below64:
  "binary64 (5423510216206601 / 2 ^ 26 * (9007199254740990 / 2 ^ 53))
     = Fin (5423510216206600 / 2 ^ 26)"
  using binary64_nearest[of "- 26" "5423510216206601 / 2 ^ 26 * (9007199254740990 / 2 ^ 53)"
      5423510216206600]
  by (simp add: two_to_def)

text \<open>An arc of length 0 has the chord 0 in binary64 arithmetic as in exact arithmetic.\<close>

lemma binary64_product_one:
  "binary64 (5423510216206601 / 2 ^ 26 * 1) = Fin (5423510216206601 / 2 ^ 26)"
  using binary64_nearest[of "- 26" "5423510216206601 / 2 ^ 26 * 1" 5423510216206601]
  by (simp add: two_to_def)

lemma distTunnel_binary64_zero: "distTunnel_binary64 (Fin 0) = Fin 0"
proof -
  define r :: real where "r = 6989323084354897 / 2 ^ 40"
  define R :: real where "R = 5423510216206601 / 2 ^ 27"
  define S :: real where "S = 5423510216206601 / 2 ^ 26"
  define T1 :: real where "T1 = 6989323084354897 / 2 ^ 39"
  have e_r: "rounded (Fin (63567523142 / 10 ^ 7)) = Fin r" unfolding r_def rounded.simps by (rule r64)
  have e_q: "Fin 0 / Fin r = Fin 0" by (simp add: r_def)
  have e_z: "rounded (Fin 0) = Fin 0" by (simp add: binary64_def)
  have e_c0: "Math_cos (Fin 0) = Fin 1" by simp
  have e_c: "rounded (Fin 1) = Fin 1" unfolding rounded.simps by (rule binary64_one)
  have e_p: "pow2 (Fin r) = Fin (r ^ 2)" by simp
  have e_R: "rounded (Fin (r ^ 2)) = Fin R" unfolding r_def R_def rounded.simps by (rule square64)
  have e_s: "Fin R + Fin R = Fin (R + R)" by simp
  have e_S: "rounded (Fin (R + R)) = Fin S" unfolding R_def S_def rounded.simps by (rule sum64)
  have e_t1: "Fin 2 * Fin r = Fin (2 * r)" by simp
  have e_T1: "rounded (Fin (2 * r)) = Fin T1" unfolding r_def T1_def rounded.simps by (rule double64)
  have e_t2: "Fin T1 * Fin r = Fin (T1 * r)" by simp
  have e_T2: "rounded (Fin (T1 * r)) = Fin S"
    unfolding r_def T1_def S_def rounded.simps by (rule product64)
  have e_t3: "Fin S * Fin 1 = Fin (S * 1)" by simp
  have e_T3: "rounded (Fin (S * 1)) = Fin S"
    unfolding S_def rounded.simps by (rule binary64_product_one)
  have e_d: "Fin S - Fin S = Fin 0" by simp
  have e_sq: "Math_sqrt (Fin 0) = Fin 0" by simp
  show ?thesis
    unfolding distTunnel_binary64_def Let_def e_r e_q e_z e_c0 e_c e_p e_R e_s e_S
      e_t1 e_T1 e_t2 e_T2 e_t3 e_T3 e_d e_sq ..
qed

section \<open>The triangulation\<close>




section \<open>Co-incident points\<close>

lemma distVincenty_same_point:
  "distVincenty (Fin lat) (Fin lon) (Fin lat) (Fin lon) = Number (Fin 0)"
  apply (simp add: distVincenty_def Let_def)
  apply (subst vincenty_loop.simps)
  apply (simp add: loop_body_def Let_def)
  done

text \<open>
  Claim C5. For every point with a finite latitude and longitude, \<open>distVincenty\<close> of
  the point and itself returns the Number 0: the first run of the loop body finds
  \<open>sinSigma\<close> equal to 0 and returns from the function, before any test of the loop.
\<close>

theorem distVincenty_identity:
  "distVincenty (Fin lat) (Fin lon) (Fin lat) (Fin lon) = Number (Fin 0)
   \<and> iteration (Fin lat) (Fin lon) (Fin lat) (Fin lon) 0 = Returned (Number (Fin 0))"
  by (simp add: distVincenty_same_point iteration_Fin Let_def sinSigma_val_def)

section \<open>The pipeline on identical stations\<close>

text \<open>
  Claim C10. For two stations with the same finite latitude, longitude, right
  ascension, declination and altitude, the baseline chord is 0, the parallax angle is
  0, and both components that \<open>distances_to_moon\<close> returns are \<open>NaN\<close>: the last step
  multiplies the zero baseline by a quotient whose divisor \<open>sin 0\<close> is 0.
\<close>

theorem distances_to_moon_identical_stations:
  "distTunnel (ToNumber (distVincenty (Fin lat) (Fin lon) (Fin lat) (Fin lon)) / Fin 1000) = Fin 0
   \<and> parallaxAngle (Fin ra) (Fin dec) (Fin ra) (Fin dec) = Fin 0
   \<and> distances_to_moon (Fin lat) (Fin lon) (Fin ra) (Fin dec) (Fin alt)
         (Fin lat) (Fin lon) (Fin ra) (Fin dec) (Fin alt) = (NaN, NaN)"
  by (simp add: distances_to_moon_def distVincenty_same_point distTunnel_zero parallaxAngle_def
        Let_def e_to_m_distance_def)

end
